theory Spec2Isabelle
  imports Main "HOL-Library.Monad_Syntax"
begin

section \<open>Python values and exceptions\<close>

text \<open>
  The program is one Python module, \<^verbatim>\<open>main.py\<close>. Every exception the module can
  raise is a value of \<open>exn\<close>; a function that can raise returns \<open>exn + 'a\<close>, with
  \<open>Inl\<close> for the exception. Two raising sites of Python's \<^verbatim>\<open>ValueError\<close> are kept
  apart, because the specification names them differently:
  \<open>MinEmptySequence\<close> is the \<^verbatim>\<open>ValueError\<close> of \<^verbatim>\<open>min()\<close> on an empty set
  (the specification's \<^verbatim>\<open>UnresolvableTimezone\<close>) and \<open>StrptimeError\<close> is the
  \<^verbatim>\<open>ValueError\<close> of \<^verbatim>\<open>datetime.strptime\<close> (the specification's
  \<^verbatim>\<open>MalformedTimestamp\<close>). \<open>InvalidTimeError\<close> is the class of \<^verbatim>\<open>pytz\<close> for a
  local time that does not exist or occurs twice. \<open>NotTabulated\<close> is no exception of
  Python: it is what the example runtime at the end of the definitions answers where
  its tables end.
\<close>

datatype exn =
    IndexError
  | AttributeError
  | MinEmptySequence
  | StrptimeError
  | IsoformatError
  | OverflowError
  | InvalidTimeError
  | NotTabulated
  | KeyError string
  | HTTPError

text \<open>
  A \<^verbatim>\<open>datetime\<close> is its wall-clock fields, counted in microseconds since
  0001-01-01T00:00:00, and its \<^verbatim>\<open>tzinfo\<close>: \<open>None\<close> for a naive value, \<open>Some d\<close>
  for an aware value whose UTC offset is \<open>d\<close> microseconds. A \<^verbatim>\<open>timedelta\<close> is a
  number of microseconds.
\<close>

record datetime =
  ticks :: int
  tzoffset :: "int option"

definition MAXTICKS :: int where
  \<comment> \<open>\<^verbatim>\<open>datetime.max\<close> is 9999-12-31T23:59:59.999999, ordinal day 3652059\<close>
  "MAXTICKS = 3652059 * 86400 * 1000000 - 1"

definition dt_sub :: "datetime \<Rightarrow> int \<Rightarrow> exn + datetime" where
  \<comment> \<open>\<^verbatim>\<open>datetime - timedelta\<close>: the fields move, the tzinfo stays, and a result outside
      \<^verbatim>\<open>datetime.min .. datetime.max\<close> raises \<^verbatim>\<open>OverflowError\<close>\<close>
  "dt_sub d delta =
     (let t = ticks d - delta
      in if 0 \<le> t \<and> t \<le> MAXTICKS then Inr (d\<lparr>ticks := t\<rparr>) else Inl OverflowError)"

definition dt_eq :: "datetime \<Rightarrow> datetime \<Rightarrow> bool" where
  \<comment> \<open>\<^verbatim>\<open>datetime.__eq__\<close>: two aware values compare as instants, two naive values
      compare their fields, and a naive value never equals an aware one\<close>
  "dt_eq a b =
     (case (tzoffset a, tzoffset b) of
        (None, None) \<Rightarrow> ticks a = ticks b
      | (Some x, Some y) \<Rightarrow> ticks a - x = ticks b - y
      | _ \<Rightarrow> False)"

text \<open>A decoded JSON value; a JSON object is a Python \<^verbatim>\<open>dict\<close>, kept as an association list.\<close>

datatype json =
    JNull
  | JBool bool
  | JNum int
  | JStr string
  | JArr "json list"
  | JObj "(string \<times> json) list"

type_synonym pydict = "(string \<times> json) list"

definition getitem :: "pydict \<Rightarrow> string \<Rightarrow> exn + json" where
  \<comment> \<open>\<^verbatim>\<open>m[k]\<close>\<close>
  "getitem m k = (case map_of m k of None \<Rightarrow> Inl (KeyError k) | Some v \<Rightarrow> Inr v)"

record SWITCHMaintenance =
  systems :: "string list"
  environment :: string
  from_time :: datetime
  to_time :: datetime
  reason :: string
  remark :: "string option"

section \<open>The library the module calls\<close>

text \<open>
  \<^verbatim>\<open>pytz\<close>, the locale-dependent \<^verbatim>\<open>strptime\<close> and the ISO 8601 methods of
  \<^verbatim>\<open>datetime\<close> are not part of the repository. They are an environment \<open>pyenv\<close>
  that every function of the module takes:
  \<^item> \<open>all_timezones\<close> is \<^verbatim>\<open>pytz.all_timezones\<close>; \<^verbatim>\<open>pytz.timezone(name)\<close> is one
    object per name, so a zone object is identified with its \<^verbatim>\<open>.zone\<close> string;
  \<^item> \<open>transition_info z\<close> is the attribute \<^verbatim>\<open>_transition_info\<close> of zone \<open>z\<close>
    (\<open>None\<close> when the object has no such attribute), a list of triples
    (utcoffset, dstoffset, tzabbrev);
  \<^item> \<open>now_tzname z\<close> is \<^verbatim>\<open>datetime.datetime.now(tzone).tzname()\<close>;
  \<^item> \<open>utcoffset z d\<close> is \<^verbatim>\<open>tzone.utcoffset(d)\<close>, which may raise;
  \<^item> \<open>set_rank\<close> fixes the iteration order of a \<^verbatim>\<open>set\<close> of zone objects: the set
    is iterated by increasing rank. Zone objects hash by identity, so the rank is a
    property of the running process, not of the program;
  \<^item> \<open>strptime s\<close> is \<^verbatim>\<open>datetime.datetime.strptime(s, "%a %b %d %H:%M:%S %Y")\<close>;
  \<^item> \<open>fromisoformat\<close> and \<open>isoformat\<close> are the methods of \<^verbatim>\<open>datetime\<close>.
\<close>

record pyenv =
  all_timezones :: "string list"
  transition_info :: "string \<Rightarrow> (int \<times> int \<times> string) list option"
  now_tzname :: "string \<Rightarrow> string"
  utcoffset :: "string \<Rightarrow> datetime \<Rightarrow> exn + int"
  set_rank :: "string \<Rightarrow> nat"
  strptime :: "string \<Rightarrow> exn + datetime"
  fromisoformat :: "string \<Rightarrow> exn + datetime"
  isoformat :: "datetime \<Rightarrow> string"

subsection \<open>Strings\<close>

text \<open>Strings are sequences of ASCII code points; other text is outside the model.\<close>

fun split_sp :: "string \<Rightarrow> string list" where
  \<comment> \<open>\<^verbatim>\<open>s.split(" ")\<close>: every single space separates, empty parts are kept\<close>
  "split_sp [] = [[]]"
| "split_sp (c # cs) =
     (if c = CHR '' '' then [] # split_sp cs
      else (case split_sp cs of [] \<Rightarrow> [[c]] | p # ps \<Rightarrow> (c # p) # ps))"

fun join_sp :: "string list \<Rightarrow> string" where
  \<comment> \<open>\<^verbatim>\<open>" ".join(xs)\<close>\<close>
  "join_sp [] = []"
| "join_sp [x] = x"
| "join_sp (x # y # ys) = x @ CHR '' '' # join_sp (y # ys)"

definition upper_char :: "char \<Rightarrow> char" where
  "upper_char c =
     (let n = (of_char c :: nat) in if 97 \<le> n \<and> n \<le> 122 then char_of (n - 32) else c)"

definition upper :: "string \<Rightarrow> string" where
  \<comment> \<open>\<^verbatim>\<open>s.upper()\<close> on ASCII letters\<close>
  "upper s = map upper_char s"

definition replace_Z :: "string \<Rightarrow> string" where
  \<comment> \<open>\<^verbatim>\<open>s.replace("Z", "+00:00")\<close>\<close>
  "replace_Z s = concat (map (\<lambda>c. if c = CHR ''Z'' then ''+00:00'' else [c]) s)"

definition is_space :: "char \<Rightarrow> bool" where
  \<comment> \<open>\<^verbatim>\<open>str.isspace\<close>, also the white space class of regular expressions\<close>
  "is_space c = ((of_char c :: nat) \<in> {9, 10, 11, 12, 13, 28, 29, 30, 31, 32})"

definition is_int_space :: "char \<Rightarrow> bool" where
  \<comment> \<open>the white space \<^verbatim>\<open>int()\<close> skips around the number\<close>
  "is_int_space c = ((of_char c :: nat) \<in> {9, 10, 11, 12, 13, 32})"

definition is_digit :: "char \<Rightarrow> bool" where
  "is_digit c = (48 \<le> (of_char c :: nat) \<and> (of_char c :: nat) \<le> 57)"

definition digit_val :: "char \<Rightarrow> nat" where
  "digit_val c = of_char c - 48"

definition strip :: "string \<Rightarrow> string" where
  "strip s = rev (dropWhile is_int_space (rev (dropWhile is_int_space s)))"

fun int_digits :: "int \<Rightarrow> bool \<Rightarrow> string \<Rightarrow> int option" where
  \<comment> \<open>decimal digits, single underscores allowed between two digits\<close>
  "int_digits acc after_digit [] = (if after_digit then Some acc else None)"
| "int_digits acc after_digit (c # cs) =
     (if is_digit c then int_digits (10 * acc + int (digit_val c)) True cs
      else if c = CHR ''_'' \<and> after_digit then int_digits acc False cs
      else None)"

definition py_int :: "string \<Rightarrow> int option" where
  \<comment> \<open>\<^verbatim>\<open>int(s)\<close>; \<open>None\<close> is \<^verbatim>\<open>ValueError\<close>\<close>
  "py_int s =
     (case strip s of
        [] \<Rightarrow> None
      | c # cs \<Rightarrow>
          if c = CHR ''-'' then map_option uminus (int_digits 0 False cs)
          else if c = CHR ''+'' then int_digits 0 False cs
          else int_digits 0 False (c # cs))"

fun str_nat :: "nat \<Rightarrow> string" where
  "str_nat n =
     (if n < 10 then [char_of (48 + n)] else str_nat (n div 10) @ [char_of (48 + n mod 10)])"

declare str_nat.simps [simp del]

definition str_int :: "int \<Rightarrow> string" where
  \<comment> \<open>\<^verbatim>\<open>str(i)\<close>\<close>
  "str_int i = (if i < 0 then CHR ''-'' # str_nat (nat (- i)) else str_nat (nat i))"

fun min_from :: "('a \<Rightarrow> nat) \<Rightarrow> 'a \<Rightarrow> 'a list \<Rightarrow> 'a" where
  "min_from key best [] = best"
| "min_from key best (x # xs) =
     (if key x < key best then min_from key x xs else min_from key best xs)"

definition py_min :: "('a \<Rightarrow> nat) \<Rightarrow> 'a list \<Rightarrow> exn + 'a" where
  \<comment> \<open>\<^verbatim>\<open>min(it, key=key)\<close>: the first element, in iteration order, whose key is
      smallest; \<^verbatim>\<open>ValueError\<close> on an empty iterable\<close>
  "py_min key xs = (case xs of [] \<Rightarrow> Inl MinEmptySequence | x # rest \<Rightarrow> Inr (min_from key x rest))"

section \<open>\<^verbatim>\<open>get_timezone_name\<close>\<close>

text \<open>
  The value returned is a \<^verbatim>\<open>pytz\<close> zone object on the first and on the last
  \<^verbatim>\<open>return\<close>, and a plain \<^verbatim>\<open>str\<close> on the second one.
\<close>

datatype tzvalue = PytzZone string | PyStr string

definition zone_abbrevs :: "pyenv \<Rightarrow> string \<Rightarrow> string list" where
  \<comment> \<open>the \<^verbatim>\<open>tzabbrev\<close>s the inner loop runs over:
      \<^verbatim>\<open>getattr(tzone, '_transition_info', [[None, None, now(tzone).tzname()]])\<close>\<close>
  "zone_abbrevs env name =
     (case transition_info env name of
        None \<Rightarrow> [now_tzname env name]
      | Some info \<Rightarrow> map (\<lambda>(utcoffset, dstoffset, tzabbrev). tzabbrev) info)"

definition set_zones :: "pyenv \<Rightarrow> string \<Rightarrow> string list" where
  \<comment> \<open>the members of \<^verbatim>\<open>set_zones\<close> after both loops, in insertion order\<close>
  "set_zones env timezone =
     remdups (filter (\<lambda>name. \<exists>tzabbrev \<in> set (zone_abbrevs env name).
                                upper tzabbrev = upper timezone)
                (all_timezones env))"

definition set_iteration :: "pyenv \<Rightarrow> string list \<Rightarrow> string list" where
  "set_iteration env zs = sort_key (set_rank env) zs"

definition get_timezone_name :: "pyenv \<Rightarrow> string \<Rightarrow> exn + tzvalue" where
  "get_timezone_name env timezone =
     (if timezone \<in> set (all_timezones env) then Inr (PytzZone timezone)
      else case py_int timezone of
          Some offset \<Rightarrow>
            Inr (PyStr (''Etc/GMT'' @
                   (if offset > 0 then CHR ''+'' # str_int offset else str_int offset)))
        | None \<Rightarrow>
            (case py_min length (set_iteration env (set_zones env timezone)) of
               Inl e \<Rightarrow> Inl e
             | Inr z \<Rightarrow> Inr (PytzZone z)))"

section \<open>\<^verbatim>\<open>parse_switch_timestamp\<close>\<close>

definition tz_token :: "string list \<Rightarrow> exn + string" where
  \<comment> \<open>\<^verbatim>\<open>parts[-2]\<close>\<close>
  "tz_token parts =
     (if length parts < 2 then Inl IndexError else Inr (parts ! (length parts - 2)))"

definition remaining :: "string list \<Rightarrow> string" where
  \<comment> \<open>\<^verbatim>\<open>" ".join(parts[:-2] + parts[-1:])\<close>\<close>
  "remaining parts =
     join_sp (take (length parts - 2) parts @ drop (length parts - 1) parts)"

definition parse_switch_timestamp :: "pyenv \<Rightarrow> string \<Rightarrow> exn + datetime" where
  "parse_switch_timestamp env ts =
     (let parts = split_sp ts in
      case tz_token parts of
        Inl e \<Rightarrow> Inl e
      | Inr tz \<Rightarrow>
          (case get_timezone_name env tz of
             Inl e \<Rightarrow> Inl e
           | Inr actual_tz \<Rightarrow>
               let new_ts = remaining parts in
               (case strptime env new_ts of
                  Inl e \<Rightarrow> Inl e
                | Inr parsed_ts \<Rightarrow>
                    (case actual_tz of
                       PyStr s \<Rightarrow> Inl AttributeError
                     | PytzZone z \<Rightarrow>
                         (case utcoffset env z parsed_ts of
                            Inl e \<Rightarrow> Inl e
                          | Inr off \<Rightarrow>
                              (case dt_sub parsed_ts off of
                                 Inl e \<Rightarrow> Inl e
                               | Inr d \<Rightarrow> Inr (d\<lparr>tzoffset := Some 0\<rparr>)))))))"

section \<open>\<^verbatim>\<open>get_statuspage_maintenance\<close>\<close>

text \<open>
  The status-page service is a function \<open>remote\<close> from the \<^verbatim>\<open>page\<close> query parameter
  of a request to the decoded body of the response, or to the exception of
  \<^verbatim>\<open>raise_for_status\<close>. The service does not change while the pages are fetched.
\<close>

type_synonym remote = "int \<Rightarrow> exn + pydict list"

definition page_param :: "int option \<Rightarrow> int" where
  \<comment> \<open>the parameter of \<^verbatim>\<open>def get_page(page=1)\<close>: the default when no argument is passed\<close>
  "page_param arg = (case arg of None \<Rightarrow> 1 | Some p \<Rightarrow> p)"

definition get_page :: "remote \<Rightarrow> int option \<Rightarrow> exn + pydict list" where
  "get_page remote arg = remote (page_param arg)"

text \<open>
  The state of the \<^verbatim>\<open>while True\<close> loop: the variables \<^verbatim>\<open>out\<close> and \<^verbatim>\<open>page\<close>, and
  the \<^verbatim>\<open>page\<close> parameters of the requests sent so far.
\<close>

record fetch_state =
  out :: "pydict list"
  page :: int
  requested :: "int list"

datatype 'a loop_step = Continue 'a | Break 'a | Raise exn

definition fetch_body :: "remote \<Rightarrow> fetch_state \<Rightarrow> fetch_state loop_step" where
  \<comment> \<open>one iteration; the call in the source is \<^verbatim>\<open>get_page()\<close>, without an argument\<close>
  "fetch_body remote st =
     (case get_page remote None of
        Inl e \<Rightarrow> Raise e
      | Inr new_data \<Rightarrow>
          let st1 = st\<lparr>out := out st @ new_data,
                       requested := requested st @ [page_param None]\<rparr>
          in if length new_data \<noteq> 100 then Break st1
             else Continue (st1\<lparr>page := page st1 + 1\<rparr>))"

partial_function (option) fetch_loop :: "remote \<Rightarrow> fetch_state \<Rightarrow> (exn + fetch_state) option" where
  "fetch_loop remote st =
     (case fetch_body remote st of
        Raise e \<Rightarrow> Some (Inl e)
      | Break st1 \<Rightarrow> Some (Inr st1)
      | Continue st1 \<Rightarrow> fetch_loop remote st1)"

fun fetch_iterate :: "remote \<Rightarrow> nat \<Rightarrow> fetch_state \<Rightarrow> fetch_state loop_step" where
  \<comment> \<open>the state after \<open>n\<close> further iterations, as long as none of them leaves the loop\<close>
  "fetch_iterate remote 0 st = Continue st"
| "fetch_iterate remote (Suc n) st =
     (case fetch_body remote st of
        Continue st1 \<Rightarrow> fetch_iterate remote n st1
      | Break st1 \<Rightarrow> Break st1
      | Raise e \<Rightarrow> Raise e)"

fun filter_key :: "string \<Rightarrow> json \<Rightarrow> pydict list \<Rightarrow> exn + pydict list" where
  \<comment> \<open>\<^verbatim>\<open>list(filter(lambda e: e[k] == v, xs))\<close>\<close>
  "filter_key k v [] = Inr []"
| "filter_key k v (e # es) =
     (case getitem e k of
        Inl x \<Rightarrow> Inl x
      | Inr u \<Rightarrow>
          (case filter_key k v es of
             Inl x \<Rightarrow> Inl x
           | Inr r \<Rightarrow> Inr (if u = v then e # r else r)))"

definition fetch_init :: fetch_state where
  "fetch_init = \<lparr>out = [], page = 1, requested = []\<rparr>"

definition get_statuspage_maintenance :: "remote \<Rightarrow> (exn + pydict list) option" where
  \<comment> \<open>\<open>None\<close>: the loop never ends\<close>
  "get_statuspage_maintenance remote =
     (case fetch_loop remote fetch_init of
        None \<Rightarrow> None
      | Some (Inl e) \<Rightarrow> Some (Inl e)
      | Some (Inr st) \<Rightarrow> Some (filter_key ''impact'' (JStr ''maintenance'') (out st)))"

section \<open>\<^verbatim>\<open>main\<close>\<close>

text \<open>
  A write is \<^verbatim>\<open>requests.patch\<close> on the incident whose \<^verbatim>\<open>id\<close> is given, or
  \<^verbatim>\<open>requests.post\<close>; both carry the dictionary \<^verbatim>\<open>incident_data\<close>. The service
  answers a write with \<open>None\<close> or with the exception of \<^verbatim>\<open>raise_for_status\<close>.
\<close>

datatype request = Patch json pydict | Post pydict

type_synonym writer = "request \<Rightarrow> exn option"

definition relevant :: "SWITCHMaintenance \<Rightarrow> bool" where
  \<comment> \<open>\<^verbatim>\<open>lambda m: m.environment == "production" and "epp.nic.ch" in m.systems\<close>\<close>
  "relevant m = (environment m = ''production'' \<and> ''epp.nic.ch'' \<in> set (systems m))"

fun find_match ::
  "pyenv \<Rightarrow> SWITCHMaintenance \<Rightarrow> pydict list \<Rightarrow> pydict option \<Rightarrow> exn + pydict option" where
  \<comment> \<open>the inner \<^verbatim>\<open>for m in statuspage_maintenance\<close>; the last argument is \<^verbatim>\<open>statuspage_m\<close>\<close>
  "find_match env switch_m [] statuspage_m = Inr statuspage_m"
| "find_match env switch_m (m # ms) statuspage_m =
     (case getitem m ''scheduled_for'' of
        Inl e \<Rightarrow> Inl e
      | Inr (JStr s) \<Rightarrow>
          (case fromisoformat env (replace_Z s) of
             Inl e \<Rightarrow> Inl e
           | Inr scheduled_for \<Rightarrow>
               find_match env switch_m ms
                 (if dt_eq scheduled_for (from_time switch_m) then Some m else statuspage_m))
      | Inr v \<Rightarrow> Inl AttributeError)"

definition incident_data :: "pyenv \<Rightarrow> string \<Rightarrow> SWITCHMaintenance \<Rightarrow> pydict" where
  \<comment> \<open>the second argument is \<^verbatim>\<open>STATUSPAGE_COMPONENT_ID\<close>\<close>
  "incident_data env component_id switch_m =
     [(''scheduled_for'', JStr (isoformat env (from_time switch_m))),
      (''scheduled_until'', JStr (isoformat env (to_time switch_m))),
      (''component_ids'', JArr [JStr component_id]),
      (''name'', JStr ''SWITCH Maintenance''),
      (''status'', JStr ''scheduled''),
      (''body'', JStr (''The registry for .ch and .li domains will be undergoing maintenance. '' @
                      ''Expect an inability to manage, register, or transfer domains with these extensions.'')),
      (''impact_override'', JStr ''maintenance''),
      (''scheduled_auto_in_progress'', JBool True),
      (''scheduled_auto_completed'', JBool True),
      (''auto_transition_to_maintenance_state'', JBool True),
      (''auto_transition_to_operational_state'', JBool True),
      (''auto_tweet_on_creation'', JBool True),
      (''auto_tweet_one_hour_before'', JBool True),
      (''auto_tweet_at_beginning'', JBool True),
      (''auto_tweet_on_completion'', JBool True)]"

definition window_request ::
  "pyenv \<Rightarrow> string \<Rightarrow> pydict list \<Rightarrow> SWITCHMaintenance \<Rightarrow> exn + request" where
  \<comment> \<open>the body of \<^verbatim>\<open>for switch_m in switch_maintenance\<close>, up to the request it sends;
      \<^verbatim>\<open>if statuspage_m\<close> is false for \<^verbatim>\<open>None\<close> and for an empty dictionary\<close>
  "window_request env component_id sp switch_m =
     (case find_match env switch_m sp None of
        Inl e \<Rightarrow> Inl e
      | Inr statuspage_m \<Rightarrow>
          let data = incident_data env component_id switch_m in
          (case statuspage_m of
             None \<Rightarrow> Inr (Post data)
           | Some m \<Rightarrow>
               if m = [] then Inr (Post data)
               else (case getitem m ''id'' of
                       Inl e \<Rightarrow> Inl e
                     | Inr i \<Rightarrow> Inr (Patch i data))))"

fun main_loop ::
  "pyenv \<Rightarrow> string \<Rightarrow> writer \<Rightarrow> pydict list \<Rightarrow> SWITCHMaintenance list \<Rightarrow> request list \<times> exn option" where
  \<comment> \<open>the requests sent, in order, and the exception that ended the run, if any\<close>
  "main_loop env component_id http sp [] = ([], None)"
| "main_loop env component_id http sp (switch_m # rest) =
     (case window_request env component_id sp switch_m of
        Inl e \<Rightarrow> ([], Some e)
      | Inr req \<Rightarrow>
          (case http req of
             Some e \<Rightarrow> ([req], Some e)
           | None \<Rightarrow>
               (case main_loop env component_id http sp rest of
                  (reqs, r) \<Rightarrow> (req # reqs, r))))"

definition main_core ::
  "pyenv \<Rightarrow> string \<Rightarrow> writer \<Rightarrow> SWITCHMaintenance list \<Rightarrow> pydict list \<Rightarrow> request list \<times> exn option" where
  \<comment> \<open>\<^verbatim>\<open>main\<close> from the two filters on: the arguments are the lists that
      \<^verbatim>\<open>get_switch_maintenance()\<close> and \<^verbatim>\<open>get_statuspage_maintenance()\<close> returned\<close>
  "main_core env component_id http switch_maintenance statuspage_maintenance =
     (let sw = filter relevant switch_maintenance in
      case filter_key ''status'' (JStr ''scheduled'') statuspage_maintenance of
        Inl e \<Rightarrow> ([], Some e)
      | Inr sp \<Rightarrow> main_loop env component_id http sp sw)"

definition main ::
  "pyenv \<Rightarrow> string \<Rightarrow> remote \<Rightarrow> writer \<Rightarrow> SWITCHMaintenance list
     \<Rightarrow> (request list \<times> exn option) option" where
  \<comment> \<open>\<^verbatim>\<open>main\<close> after \<^verbatim>\<open>get_switch_maintenance()\<close> has returned \<open>switch_maintenance\<close>\<close>
  "main env component_id remote http switch_maintenance =
     (case get_statuspage_maintenance remote of
        None \<Rightarrow> None
      | Some (Inl e) \<Rightarrow> Some ([], Some e)
      | Some (Inr sp) \<Rightarrow> Some (main_core env component_id http switch_maintenance sp))"

section \<open>An example runtime\<close>

text \<open>
  The theorems below hold for every environment. The closed examples run in
  \<open>example_env\<close>: six zones of \<^verbatim>\<open>pytz\<close>, \<^verbatim>\<open>strptime\<close> in the C locale, and the
  values of \<^verbatim>\<open>fromisoformat\<close> and \<^verbatim>\<open>isoformat\<close> at the strings and instants the
  examples use.
\<close>

subsection \<open>\<^verbatim>\<open>strptime\<close> with the format \<^verbatim>\<open>%a %b %d %H:%M:%S %Y\<close>\<close>

text \<open>
  The format compiles to a regular expression that is matched from the start of the
  string, ignoring case: a weekday name, white space, a month name, white space, the day
  (one or two digits, 1 to 31), white space, hour, minute and second (one or two digits
  each) separated by colons, white space, and a year of exactly four digits, after which
  the string must end. The weekday is not compared with the date. The constructor of
  \<^verbatim>\<open>datetime\<close> then rejects the year 0, a day the month does not have and a second
  above 59. Every failure is a \<^verbatim>\<open>ValueError\<close>.
\<close>

definition lower_char :: "char \<Rightarrow> char" where
  "lower_char c =
     (let n = (of_char c :: nat) in if 65 \<le> n \<and> n \<le> 90 then char_of (n + 32) else c)"

fun index_of :: "'a list \<Rightarrow> 'a \<Rightarrow> nat option" where
  "index_of [] y = None"
| "index_of (x # xs) y = (if x = y then Some 0 else map_option Suc (index_of xs y))"

definition weekday_names :: "string list" where
  "weekday_names = [''mon'', ''tue'', ''wed'', ''thu'', ''fri'', ''sat'', ''sun'']"

definition month_names :: "string list" where
  "month_names = [''jan'', ''feb'', ''mar'', ''apr'', ''may'', ''jun'',
                  ''jul'', ''aug'', ''sep'', ''oct'', ''nov'', ''dec'']"

definition take_name :: "string list \<Rightarrow> string \<Rightarrow> (nat \<times> string) option" where
  "take_name names s =
     (if length s < 3 then None
      else map_option (\<lambda>i. (i, drop 3 s)) (index_of names (map lower_char (take 3 s))))"

definition skip_spaces :: "string \<Rightarrow> string option" where
  "skip_spaces s =
     (case s of [] \<Rightarrow> None
      | c # cs \<Rightarrow> if is_space c then Some (dropWhile is_space cs) else None)"

definition expect_colon :: "string \<Rightarrow> string option" where
  "expect_colon s = (case s of [] \<Rightarrow> None | c # cs \<Rightarrow> if c = CHR '':'' then Some cs else None)"

definition take_number :: "nat \<Rightarrow> string \<Rightarrow> (int \<times> string) option" where
  \<comment> \<open>the digits at the front of \<open>s\<close>, at least one and at most \<open>maxlen\<close>\<close>
  "take_number maxlen s =
     (let ds = takeWhile is_digit s
      in if ds = [] \<or> maxlen < length ds then None
         else Some (foldl (\<lambda>a c. 10 * a + int (digit_val c)) 0 ds, dropWhile is_digit s))"

definition is_leap :: "int \<Rightarrow> bool" where
  "is_leap y = (y mod 4 = 0 \<and> (y mod 100 \<noteq> 0 \<or> y mod 400 = 0))"

definition days_in_month :: "int \<Rightarrow> nat \<Rightarrow> int" where
  \<comment> \<open>the month is counted from 0\<close>
  "days_in_month y m =
     (if m = 1 \<and> is_leap y then 29
      else [31, 28, 31, 30, 31, 30, 31, 31, 30, 31, 30, 31] ! m)"

definition days_before_month :: "int \<Rightarrow> nat \<Rightarrow> int" where
  "days_before_month y m = sum_list (map (days_in_month y) [0..<m])"

definition days_before_year :: "int \<Rightarrow> int" where
  "days_before_year y = (y - 1) * 365 + (y - 1) div 4 - (y - 1) div 100 + (y - 1) div 400"

definition civil_ticks :: "int \<Rightarrow> nat \<Rightarrow> int \<Rightarrow> int \<Rightarrow> int \<Rightarrow> int \<Rightarrow> int" where
  \<comment> \<open>the microseconds from 0001-01-01T00:00:00 to the given date and time of day\<close>
  "civil_ticks y m d hh mm ss =
     ((days_before_year y + days_before_month y m + d - 1) * 86400
      + hh * 3600 + mm * 60 + ss) * 1000000"

definition strptime_C :: "string \<Rightarrow> exn + datetime" where
  "strptime_C s =
     (case do {
             (a, s1) \<leftarrow> take_name weekday_names s;
             s2 \<leftarrow> skip_spaces s1;
             (b, s3) \<leftarrow> take_name month_names s2;
             s4 \<leftarrow> skip_spaces s3;
             (d, s5) \<leftarrow> take_number 2 s4;
             s6 \<leftarrow> skip_spaces s5;
             (hh, s7) \<leftarrow> take_number 2 s6;
             s8 \<leftarrow> expect_colon s7;
             (mm, s9) \<leftarrow> take_number 2 s8;
             s10 \<leftarrow> expect_colon s9;
             (ss, s11) \<leftarrow> take_number 2 s10;
             s12 \<leftarrow> skip_spaces s11;
             (y, s13) \<leftarrow> take_number 4 s12;
             if length s12 = 4 \<and> s13 = [] \<and> 1 \<le> y \<and> 1 \<le> d \<and> d \<le> days_in_month y b
                \<and> hh \<le> 23 \<and> mm \<le> 59 \<and> ss \<le> 59
             then Some \<lparr>ticks = civil_ticks y b d hh mm ss, tzoffset = None\<rparr>
             else None
           }
      of None \<Rightarrow> Inl StrptimeError | Some t \<Rightarrow> Inr t)"

subsection \<open>Zones\<close>

text \<open>
  \<^verbatim>\<open>UTC\<close> and \<^verbatim>\<open>Etc/GMT-1\<close> are fixed offsets without a transition table
  (\<^verbatim>\<open>Etc/GMT-1\<close> is one hour east of Greenwich). \<^verbatim>\<open>CET\<close> and
  \<^verbatim>\<open>Europe/Zurich\<close> observe summer time; their offset is tabulated for the local
  times of the year 2024 only: summer time began on 31 March at 02:00, so the local
  times from 02:00 to 03:00 of that day do not exist, and ended on 27 October at 03:00,
  so the local times from 02:00 to 03:00 of that day occur twice; \<^verbatim>\<open>utcoffset\<close>,
  called without \<^verbatim>\<open>is_dst\<close>, raises for both.
  \<^verbatim>\<open>PRC\<close> and \<^verbatim>\<open>ROC\<close> have both used the abbreviation \<^verbatim>\<open>CST\<close>.
\<close>

definition hours :: "int \<Rightarrow> int" where
  "hours h = h * 3600 * 1000000"

definition example_transition_info :: "string \<Rightarrow> (int \<times> int \<times> string) list option" where
  "example_transition_info z =
     (if z = ''CET'' then Some [(hours 1, 0, ''CET''), (hours 2, hours 1, ''CEST'')]
      else if z = ''Europe/Zurich'' then
        Some [(2048000000, 0, ''LMT''), (1786000000, 0, ''BMT''),
              (hours 1, 0, ''CET''), (hours 2, hours 1, ''CEST'')]
      else if z = ''PRC'' then
        Some [(29160000000, 0, ''LMT''), (hours 9, hours 1, ''CDT''), (hours 8, 0, ''CST'')]
      else if z = ''ROC'' then
        Some [(29160000000, 0, ''LMT''), (hours 8, 0, ''CST''), (hours 9, 0, ''JST''),
              (hours 9, hours 1, ''CDT'')]
      else None)"

definition example_now_tzname :: "string \<Rightarrow> string" where
  "example_now_tzname z =
     (if z = ''UTC'' then ''UTC'' else if z = ''Etc/GMT-1'' then ''+01'' else ''CET'')"

definition example_utcoffset :: "string \<Rightarrow> datetime \<Rightarrow> exn + int" where
  "example_utcoffset z d =
     (if z = ''UTC'' then Inr 0
      else if z = ''Etc/GMT-1'' then Inr (hours 1)
      else if z = ''CET'' \<or> z = ''Europe/Zurich'' then
        (if ticks d < 63839664000000000 \<or> 63871286400000000 \<le> ticks d then Inl NotTabulated
         else if ticks d < 63847447200000000 then Inr (hours 1)
         else if ticks d < 63847450800000000 then Inl InvalidTimeError
         else if ticks d < 63865591200000000 then Inr (hours 2)
         else if ticks d < 63865594800000000 then Inl InvalidTimeError
         else Inr (hours 1))
      else Inl NotTabulated)"

definition instant_A :: datetime where
  \<comment> \<open>2024-06-04T08:00:00+00:00\<close>
  "instant_A = \<lparr>ticks = 63853084800000000, tzoffset = Some 0\<rparr>"

definition instant_B :: datetime where
  \<comment> \<open>2024-06-04T12:00:00+00:00\<close>
  "instant_B = \<lparr>ticks = 63853099200000000, tzoffset = Some 0\<rparr>"

definition example_fromisoformat :: "string \<Rightarrow> exn + datetime" where
  "example_fromisoformat s =
     (if s = ''2024-06-04T08:00:00+00:00'' \<or> s = ''2024-06-04T08:00:00.000+00:00'' then
        Inr instant_A
      else if s = ''2024-06-04T10:00:00.000+02:00'' then
        Inr \<lparr>ticks = 63853092000000000, tzoffset = Some (hours 2)\<rparr>
      else if s = ''2024-06-04T12:00:00+00:00'' \<or> s = ''2024-06-04T12:00:00.000+00:00'' then
        Inr instant_B
      else if s = ''2024-06-04T08:00:00'' then
        Inr \<lparr>ticks = 63853084800000000, tzoffset = None\<rparr>
      else Inl NotTabulated)"

definition example_isoformat :: "datetime \<Rightarrow> string" where
  "example_isoformat d =
     (if d = instant_A then ''2024-06-04T08:00:00+00:00''
      else if d = instant_B then ''2024-06-04T12:00:00+00:00''
      else [])"

definition example_env :: pyenv where
  "example_env =
     \<lparr>all_timezones = [''CET'', ''Etc/GMT-1'', ''Europe/Zurich'', ''PRC'', ''ROC'', ''UTC''],
      transition_info = example_transition_info,
      now_tzname = example_now_tzname,
      utcoffset = example_utcoffset,
      set_rank = (\<lambda>z. 0),
      strptime = strptime_C,
      fromisoformat = example_fromisoformat,
      isoformat = example_isoformat\<rparr>"

subsection \<open>Status-page incidents\<close>

definition incident :: "string \<Rightarrow> string \<Rightarrow> string \<Rightarrow> string \<Rightarrow> pydict" where
  "incident i st imp start =
     [(''id'', JStr i), (''status'', JStr st), (''impact'', JStr imp),
      (''scheduled_for'', JStr start)]"

definition full_first_page :: remote where
  \<comment> \<open>a service with 101 incidents: a full first page and one incident on the second\<close>
  "full_first_page p =
     (if p = 1 then
        Inr (replicate 100 (incident ''a'' ''scheduled'' ''maintenance'' ''2024-06-04T08:00:00.000Z''))
      else if p = 2 then
        Inr [incident ''b'' ''scheduled'' ''maintenance'' ''2024-06-04T12:00:00.000Z'']
      else Inr [])"

definition window_A :: SWITCHMaintenance where
  "window_A =
     \<lparr>systems = [''epp.nic.ch'', ''whois.nic.ch''], environment = ''production'',
      from_time = instant_A, to_time = instant_B, reason = ''Maintenance'', remark = None\<rparr>"

definition window_B :: SWITCHMaintenance where
  "window_B =
     \<lparr>systems = [''epp.nic.ch''], environment = ''test'',
      from_time = instant_A, to_time = instant_B, reason = ''Maintenance'', remark = None\<rparr>"

definition example_incidents :: "pydict list" where
  "example_incidents =
     [incident ''x'' ''scheduled'' ''maintenance'' ''2024-06-04T08:00:00.000Z'',
      incident ''y'' ''scheduled'' ''maintenance'' ''2024-06-04T10:00:00.000+02:00'',
      incident ''z'' ''scheduled'' ''maintenance'' ''2024-06-04T12:00:00.000Z'',
      incident ''u'' ''in_progress'' ''maintenance'' ''2024-06-04T08:00:00.000Z'']"

definition window_C :: SWITCHMaintenance where
  "window_C =
     \<lparr>systems = [''epp.nic.ch''], environment = ''production'',
      from_time = instant_B, to_time = instant_B, reason = ''Maintenance'', remark = None\<rparr>"

section \<open>The reconciler in the words of the specification\<close>

text \<open>
  A status-page incident has an id, a status and a start that
  \<^verbatim>\<open>fromisoformat\<close> can read. It is scheduled when its status is \<^verbatim>\<open>scheduled\<close>,
  and it starts at a window when its start, as an instant, equals the window's
  \<^verbatim>\<open>from_time\<close>. For one window the reconciler updates the last incident that starts
  at the window, and creates an incident when there is none.
\<close>

definition well_formed :: "pyenv \<Rightarrow> pydict \<Rightarrow> bool" where
  "well_formed env m =
     (map_of m ''id'' \<noteq> None \<and> map_of m ''status'' \<noteq> None \<and>
      (case map_of m ''scheduled_for'' of
         Some (JStr s) \<Rightarrow> (case fromisoformat env (replace_Z s) of Inr d \<Rightarrow> True | Inl e \<Rightarrow> False)
       | _ \<Rightarrow> False))"

definition is_scheduled :: "pydict \<Rightarrow> bool" where
  "is_scheduled m = (map_of m ''status'' = Some (JStr ''scheduled''))"

definition has_maintenance_impact :: "pydict \<Rightarrow> bool" where
  "has_maintenance_impact m = (map_of m ''impact'' = Some (JStr ''maintenance''))"

definition starts_at :: "pyenv \<Rightarrow> SWITCHMaintenance \<Rightarrow> pydict \<Rightarrow> bool" where
  "starts_at env w m =
     (case map_of m ''scheduled_for'' of
        Some (JStr s) \<Rightarrow>
          (case fromisoformat env (replace_Z s) of
             Inr d \<Rightarrow> dt_eq d (from_time w)
           | Inl e \<Rightarrow> False)
      | _ \<Rightarrow> False)"

definition incident_id :: "pydict \<Rightarrow> json" where
  \<comment> \<open>the id of a well-formed incident\<close>
  "incident_id m = (case map_of m ''id'' of Some i \<Rightarrow> i | None \<Rightarrow> JNull)"

definition spec_intent :: "pyenv \<Rightarrow> string \<Rightarrow> pydict list \<Rightarrow> SWITCHMaintenance \<Rightarrow> request" where
  \<comment> \<open>\<open>incs\<close> are the scheduled incidents\<close>
  "spec_intent env component_id incs w =
     (case filter (starts_at env w) incs of
        [] \<Rightarrow> Post (incident_data env component_id w)
      | m # ms \<Rightarrow> Patch (incident_id (last (m # ms))) (incident_data env component_id w))"

section \<open>Properties of \<^verbatim>\<open>get_timezone_name\<close>\<close>

subsection \<open>\<^verbatim>\<open>min\<close> over the candidate set\<close>

lemma min_from_mem: "min_from key b xs \<in> set (b # xs)"
  by (induction xs arbitrary: b) auto

lemma min_from_least: "x \<in> set (b # xs) \<Longrightarrow> key (min_from key b xs) \<le> key x"
proof (induction xs arbitrary: b x)
  case Nil
  then show ?case by simp
next
  case (Cons a xs)
  show ?case
  proof (cases "key a < key b")
    case True
    have "key (min_from key a xs) \<le> key a" by (rule Cons.IH) simp
    moreover have "x \<in> set xs \<Longrightarrow> key (min_from key a xs) \<le> key x" by (rule Cons.IH) simp
    ultimately show ?thesis using True Cons.prems by auto
  next
    case False
    have "key (min_from key b xs) \<le> key b" by (rule Cons.IH) simp
    moreover have "x \<in> set xs \<Longrightarrow> key (min_from key b xs) \<le> key x" by (rule Cons.IH) simp
    ultimately show ?thesis using False Cons.prems by auto
  qed
qed

lemma py_min_nonempty:
  assumes "xs \<noteq> []"
  obtains z where "py_min key xs = Inr z" "z \<in> set xs" "\<forall>x \<in> set xs. key z \<le> key x"
proof -
  from assms obtain b rest where xs: "xs = b # rest" by (cases xs) auto
  let ?z = "min_from key b rest"
  have "py_min key xs = Inr ?z" by (simp add: py_min_def xs)
  moreover have "?z \<in> set xs" unfolding xs by (rule min_from_mem)
  moreover have "\<forall>x \<in> set xs. key ?z \<le> key x" unfolding xs by (blast intro: min_from_least)
  ultimately show ?thesis by (rule that)
qed

lemma py_min_empty: "py_min key [] = Inl MinEmptySequence"
  by (simp add: py_min_def)

lemma py_min_unique:
  assumes "z \<in> set xs" and "\<forall>x \<in> set xs. x \<noteq> z \<longrightarrow> key z < key x"
  shows "py_min key xs = Inr z"
proof -
  from assms(1) have "xs \<noteq> []" by auto
  then obtain y where y: "py_min key xs = Inr y" "y \<in> set xs" "\<forall>x \<in> set xs. key y \<le> key x"
    by (rule py_min_nonempty)
  have "y = z"
  proof (rule ccontr)
    assume "y \<noteq> z"
    with assms(2) y(2) have "key z < key y" by blast
    moreover from y(3) assms(1) have "key y \<le> key z" by blast
    ultimately show False by simp
  qed
  with y(1) show ?thesis by simp
qed

lemma set_set_iteration: "set (set_iteration env zs) = set zs"
  by (simp add: set_iteration_def)

lemma set_iteration_Nil: "set_iteration env [] = []"
  by (simp add: set_iteration_def)

lemma zone_abbrevs_rank: "zone_abbrevs (env\<lparr>set_rank := r\<rparr>) z = zone_abbrevs env z"
  by (simp add: zone_abbrevs_def split: option.split)

lemma set_zones_rank: "set_zones (env\<lparr>set_rank := r\<rparr>) timezone = set_zones env timezone"
  by (simp add: set_zones_def zone_abbrevs_rank)

lemma mem_set_zones:
  "z \<in> set (set_zones env timezone) \<longleftrightarrow>
     z \<in> set (all_timezones env) \<and> (\<exists>a \<in> set (zone_abbrevs env z). upper a = upper timezone)"
  by (auto simp: set_zones_def)

lemma get_timezone_name_abbrev:
  assumes "timezone \<notin> set (all_timezones env)" and "py_int timezone = None"
  shows "get_timezone_name env timezone =
           (case py_min length (set_iteration env (set_zones env timezone)) of
              Inl e \<Rightarrow> Inl e | Inr z \<Rightarrow> Inr (PytzZone z))"
  using assms by (simp add: get_timezone_name_def)

lemma set_zones_empty:
  assumes "\<forall>z \<in> set (all_timezones env). \<forall>a \<in> set (zone_abbrevs env z). upper a \<noteq> upper timezone"
  shows "set_zones env timezone = []"
proof -
  have "filter (\<lambda>name. \<exists>tzabbrev \<in> set (zone_abbrevs env name). upper tzabbrev = upper timezone)
          (all_timezones env) = []"
    using assms by (auto simp: filter_empty_conv)
  then show ?thesis by (simp add: set_zones_def)
qed

subsection \<open>Abbreviations\<close>

text \<open>
  Claim C4, as amended. A token that is neither a zone identifier nor an integer, and
  that at least one zone's abbreviations match case-insensitively, resolves to a
  candidate zone whose identifier is as short as any candidate's. When one candidate is
  strictly shorter than all others, the result is that candidate whatever the iteration
  order of the candidate set is. Which of several shortest candidates is returned is
  not determined by the token.
\<close>

theorem abbreviation_resolves_to_a_shortest_candidate:
  assumes "timezone \<notin> set (all_timezones env)"
    and "py_int timezone = None"
    and "set_zones env timezone \<noteq> []"
  shows "\<exists>z. get_timezone_name env timezone = Inr (PytzZone z)
           \<and> z \<in> set (all_timezones env)
           \<and> (\<exists>a \<in> set (zone_abbrevs env z). upper a = upper timezone)
           \<and> (\<forall>c \<in> set (set_zones env timezone). length z \<le> length c)
           \<and> ((\<forall>c \<in> set (set_zones env timezone). c \<noteq> z \<longrightarrow> length z < length c)
                \<longrightarrow> (\<forall>rank. get_timezone_name (env\<lparr>set_rank := rank\<rparr>) timezone
                              = Inr (PytzZone z)))"
proof -
  let ?cs = "set_zones env timezone"
  from assms(3) have "set_iteration env ?cs \<noteq> []"
    using set_set_iteration [of env ?cs] by auto
  then obtain z where z: "py_min length (set_iteration env ?cs) = Inr z"
      "z \<in> set (set_iteration env ?cs)"
      "\<forall>x \<in> set (set_iteration env ?cs). length z \<le> length x"
    by (rule py_min_nonempty)
  from z(2) have mem: "z \<in> set ?cs" by (simp add: set_set_iteration)
  have res: "get_timezone_name env timezone = Inr (PytzZone z)"
    using assms(1,2) z(1) by (simp add: get_timezone_name_abbrev)
  have least: "\<forall>c \<in> set ?cs. length z \<le> length c"
    using z(3) by (simp add: set_set_iteration)
  have indep: "get_timezone_name (env\<lparr>set_rank := rank\<rparr>) timezone = Inr (PytzZone z)"
    if uniq: "\<forall>c \<in> set ?cs. c \<noteq> z \<longrightarrow> length z < length c" for rank
  proof -
    let ?env = "env\<lparr>set_rank := rank\<rparr>"
    have "py_min length (set_iteration ?env (set_zones ?env timezone)) = Inr z"
      using mem uniq by (intro py_min_unique) (simp_all add: set_set_iteration set_zones_rank)
    moreover have "timezone \<notin> set (all_timezones ?env)" "py_int timezone = None"
      using assms(1,2) by simp_all
    ultimately show ?thesis by (simp add: get_timezone_name_abbrev)
  qed
  from mem have "z \<in> set (all_timezones env)"
    and "\<exists>a \<in> set (zone_abbrevs env z). upper a = upper timezone"
    by (simp_all add: mem_set_zones)
  with res least indep show ?thesis by blast
qed

theorem abbreviation_resolves_to_a_shortest_candidate_witness:
  "''CEST'' \<notin> set (all_timezones example_env)
   \<and> py_int ''CEST'' = None
   \<and> set_zones example_env ''CEST'' = [''CET'', ''Europe/Zurich'']
   \<and> get_timezone_name example_env ''CEST'' = Inr (PytzZone ''CET'')
   \<and> get_timezone_name (example_env\<lparr>set_rank := (\<lambda>z. if z = ''CET'' then 1 else 0)\<rparr>) ''CEST''
       = Inr (PytzZone ''CET'')"
proof -
  have h1: "''CEST'' \<notin> set (all_timezones example_env)" by code_simp
  have h2: "py_int ''CEST'' = None" by code_simp
  have cs: "set_zones example_env ''CEST'' = [''CET'', ''Europe/Zurich'']" by code_simp
  then have h3: "set_zones example_env ''CEST'' \<noteq> []" by simp
  from abbreviation_resolves_to_a_shortest_candidate [OF h1 h2 h3]
  obtain z where z: "get_timezone_name example_env ''CEST'' = Inr (PytzZone z)"
      "\<forall>c \<in> set (set_zones example_env ''CEST''). length z \<le> length c"
      "(\<forall>c \<in> set (set_zones example_env ''CEST''). c \<noteq> z \<longrightarrow> length z < length c)
         \<longrightarrow> (\<forall>rank. get_timezone_name (example_env\<lparr>set_rank := rank\<rparr>) ''CEST''
                       = Inr (PytzZone z))"
      "z \<in> set (all_timezones example_env)"
    by blast
  have "get_timezone_name example_env ''CEST'' = Inr (PytzZone ''CET'')" by code_simp
  with z(1) have zc: "z = ''CET''" by simp
  have "\<forall>c \<in> set (set_zones example_env ''CEST''). c \<noteq> z \<longrightarrow> length z < length c"
    unfolding cs zc by simp
  with z(3) have "\<forall>rank. get_timezone_name (example_env\<lparr>set_rank := rank\<rparr>) ''CEST''
                       = Inr (PytzZone z)" by blast
  then have "get_timezone_name (example_env\<lparr>set_rank := (\<lambda>z. if z = ''CET'' then 1 else 0)\<rparr>) ''CEST''
       = Inr (PytzZone ''CET'')" unfolding zc by blast
  with h1 h2 cs z(1) zc show ?thesis by simp
qed

text \<open>
  Claim C4 as stated fails: \<^verbatim>\<open>PRC\<close> and \<^verbatim>\<open>ROC\<close> are the shortest zones that have
  used \<^verbatim>\<open>CST\<close>, and the same token resolves to one or the other, depending only on
  the order in which the set of candidates is iterated.
\<close>

theorem tied_candidates_counterexample:
  "get_timezone_name example_env ''CST'' = Inr (PytzZone ''PRC'')
   \<and> get_timezone_name (example_env\<lparr>set_rank := (\<lambda>z. if z = ''ROC'' then 0 else 1)\<rparr>) ''CST''
       = Inr (PytzZone ''ROC'')"
  by code_simp

section \<open>Properties of \<^verbatim>\<open>parse_switch_timestamp\<close>\<close>

lemma parse_resolver_error:
  assumes "tz_token (split_sp ts) = Inr tz" and "get_timezone_name env tz = Inl e"
  shows "parse_switch_timestamp env ts = Inl e"
  using assms by (simp add: parse_switch_timestamp_def)

lemma parse_index_error:
  assumes "length (split_sp ts) < 2"
  shows "parse_switch_timestamp env ts = Inl IndexError"
  using assms by (simp add: parse_switch_timestamp_def tz_token_def)

lemma parse_strptime_error:
  assumes "tz_token (split_sp ts) = Inr tz" and "get_timezone_name env tz = Inr v"
    and "strptime env (remaining (split_sp ts)) = Inl e"
  shows "parse_switch_timestamp env ts = Inl e"
  using assms by (simp add: parse_switch_timestamp_def)

lemma parse_str_zone:
  assumes "tz_token (split_sp ts) = Inr tz" and "get_timezone_name env tz = Inr (PyStr name)"
    and "strptime env (remaining (split_sp ts)) = Inr local"
  shows "parse_switch_timestamp env ts = Inl AttributeError"
  using assms by (simp add: parse_switch_timestamp_def)

subsection \<open>Numeric tokens\<close>

lemma numeric_token_is_str:
  assumes "timezone \<notin> set (all_timezones env)" and "py_int timezone = Some n"
  shows "get_timezone_name env timezone =
           Inr (PyStr (''Etc/GMT'' @ (if 0 < n then CHR ''+'' # str_int n else str_int n)))"
  using assms by (simp add: get_timezone_name_def)

lemma numeric_token_never_parses:
  assumes "tz_token (split_sp ts) = Inr tz"
    and "tz \<notin> set (all_timezones env)" and "py_int tz = Some n"
  shows "parse_switch_timestamp env ts \<noteq> Inr d"
proof (cases "strptime env (remaining (split_sp ts))")
  case (Inl e)
  with assms show ?thesis
    by (simp add: parse_strptime_error [OF assms(1) numeric_token_is_str [OF assms(2,3)]])
next
  case (Inr local)
  with assms show ?thesis
    by (simp add: parse_str_zone [OF assms(1) numeric_token_is_str [OF assms(2,3)]])
qed

text \<open>
  Claim C2, at the timestamp \<^verbatim>\<open>Tue Jun 4 10:00:00 2 2024\<close>. The token \<^verbatim>\<open>2\<close> is
  no zone identifier and is the integer 2. \<^verbatim>\<open>get_timezone_name\<close> returns the string
  \<^verbatim>\<open>Etc/GMT+2\<close> (and \<^verbatim>\<open>Etc/GMT-5\<close> for the token \<^verbatim>\<open>-5\<close>): the sign is the
  token's, but the value is a \<^verbatim>\<open>str\<close>, not a zone. The rest of the timestamp
  matches the pattern, and \<^verbatim>\<open>parse_switch_timestamp\<close> raises \<^verbatim>\<open>AttributeError\<close>
  when it asks the string for a UTC offset.
\<close>

theorem numeric_token_breaks_the_parser:
  "''2'' \<notin> set (all_timezones example_env)
   \<and> py_int ''2'' = Some 2
   \<and> get_timezone_name example_env ''2'' = Inr (PyStr ''Etc/GMT+2'')
   \<and> get_timezone_name example_env ''-5'' = Inr (PyStr ''Etc/GMT-5'')
   \<and> strptime example_env (remaining (split_sp ''Tue Jun 4 10:00:00 2 2024''))
       = Inr \<lparr>ticks = 63853092000000000, tzoffset = None\<rparr>
   \<and> parse_switch_timestamp example_env ''Tue Jun 4 10:00:00 2 2024'' = Inl AttributeError"
  by code_simp

subsection \<open>Unresolvable tokens\<close>

text \<open>
  Claim C6. A token that is no zone identifier, that \<^verbatim>\<open>int()\<close> rejects and that no
  abbreviation of any zone matches makes \<^verbatim>\<open>get_timezone_name\<close> raise: \<^verbatim>\<open>min()\<close>
  finds the candidate set empty. No default zone is returned, and every timestamp whose
  second-to-last token is that token makes \<^verbatim>\<open>parse_switch_timestamp\<close> raise the same
  exception.
\<close>

theorem unresolvable_token_fails:
  assumes "timezone \<notin> set (all_timezones env)"
    and "py_int timezone = None"
    and "\<forall>z \<in> set (all_timezones env). \<forall>a \<in> set (zone_abbrevs env z). upper a \<noteq> upper timezone"
  shows "get_timezone_name env timezone = Inl MinEmptySequence
         \<and> (\<forall>ts. tz_token (split_sp ts) = Inr timezone
               \<longrightarrow> parse_switch_timestamp env ts = Inl MinEmptySequence)"
proof -
  have "set_zones env timezone = []" using assms(3) by (rule set_zones_empty)
  then have "get_timezone_name env timezone = Inl MinEmptySequence"
    using assms(1,2) by (simp add: get_timezone_name_def set_iteration_def py_min_def)
  then show ?thesis by (simp add: parse_resolver_error)
qed

theorem unresolvable_token_fails_witness:
  "''ZZZ'' \<notin> set (all_timezones example_env)
   \<and> py_int ''ZZZ'' = None
   \<and> set_zones example_env ''ZZZ'' = []
   \<and> tz_token (split_sp ''Tue Jun 4 10:00:00 ZZZ 2024'') = Inr ''ZZZ''
   \<and> get_timezone_name example_env ''ZZZ'' = Inl MinEmptySequence
   \<and> parse_switch_timestamp example_env ''Tue Jun 4 10:00:00 ZZZ 2024'' = Inl MinEmptySequence"
proof -
  have h1: "''ZZZ'' \<notin> set (all_timezones example_env)" by code_simp
  have h2: "py_int ''ZZZ'' = None" by code_simp
  have h3: "\<forall>z \<in> set (all_timezones example_env).
              \<forall>a \<in> set (zone_abbrevs example_env z). upper a \<noteq> upper ''ZZZ''"
    by code_simp
  have cs: "set_zones example_env ''ZZZ'' = []" by code_simp
  have tok: "tz_token (split_sp ''Tue Jun 4 10:00:00 ZZZ 2024'') = Inr ''ZZZ''" by code_simp
  from unresolvable_token_fails [OF h1 h2 h3] tok h1 h2 cs show ?thesis by blast
qed

subsection \<open>Timestamps that do not match the pattern\<close>

text \<open>
  Claim C9, as amended. When the string that is left after the second-to-last token is
  removed does not match the pattern, \<^verbatim>\<open>parse_switch_timestamp\<close> returns no instant.
  It raises the exception of \<^verbatim>\<open>strptime\<close> when the timestamp has a second-to-last
  token and that token resolves; the exception of \<^verbatim>\<open>get_timezone_name\<close> when the
  token does not resolve, because the token is resolved before the pattern is matched;
  and \<^verbatim>\<open>IndexError\<close> when the timestamp has no second-to-last token.
\<close>

theorem malformed_timestamp_fails:
  assumes "strptime env (remaining (split_sp ts)) = Inl e"
  shows "(\<forall>d. parse_switch_timestamp env ts \<noteq> Inr d)
         \<and> (\<forall>tz v. tz_token (split_sp ts) = Inr tz \<and> get_timezone_name env tz = Inr v
               \<longrightarrow> parse_switch_timestamp env ts = Inl e)
         \<and> (\<forall>tz x. tz_token (split_sp ts) = Inr tz \<and> get_timezone_name env tz = Inl x
               \<longrightarrow> parse_switch_timestamp env ts = Inl x)
         \<and> (length (split_sp ts) < 2 \<longrightarrow> parse_switch_timestamp env ts = Inl IndexError)"
proof -
  have a: "parse_switch_timestamp env ts = Inl e"
    if "tz_token (split_sp ts) = Inr tz" "get_timezone_name env tz = Inr v" for tz v
    using that assms by (rule parse_strptime_error)
  have b: "parse_switch_timestamp env ts = Inl x"
    if "tz_token (split_sp ts) = Inr tz" "get_timezone_name env tz = Inl x" for tz x
    using that by (rule parse_resolver_error)
  have c: "parse_switch_timestamp env ts = Inl IndexError" if "length (split_sp ts) < 2"
    using that by (rule parse_index_error)
  have d: "parse_switch_timestamp env ts \<noteq> Inr d" for d
  proof (cases "tz_token (split_sp ts)")
    case (Inl x)
    then have "length (split_sp ts) < 2" by (simp add: tz_token_def split: if_splits)
    with c show ?thesis by simp
  next
    case (Inr tz)
    then show ?thesis using a b by (cases "get_timezone_name env tz") auto
  qed
  from a b c d show ?thesis by blast
qed

theorem malformed_timestamp_fails_witness:
  "strptime example_env (remaining (split_sp ''Tue Jun 31 10:00:00 CEST 2024'')) = Inl StrptimeError
   \<and> tz_token (split_sp ''Tue Jun 31 10:00:00 CEST 2024'') = Inr ''CEST''
   \<and> get_timezone_name example_env ''CEST'' = Inr (PytzZone ''CET'')
   \<and> parse_switch_timestamp example_env ''Tue Jun 31 10:00:00 CEST 2024'' = Inl StrptimeError"
proof -
  have h: "strptime example_env (remaining (split_sp ''Tue Jun 31 10:00:00 CEST 2024''))
             = Inl StrptimeError" by code_simp
  have tok: "tz_token (split_sp ''Tue Jun 31 10:00:00 CEST 2024'') = Inr ''CEST''" by code_simp
  have tz: "get_timezone_name example_env ''CEST'' = Inr (PytzZone ''CET'')" by code_simp
  from malformed_timestamp_fails [OF h] tok tz
  have "parse_switch_timestamp example_env ''Tue Jun 31 10:00:00 CEST 2024'' = Inl StrptimeError"
    by blast
  with h tok tz show ?thesis by simp
qed

text \<open>
  Claim C9 as stated fails at \<^verbatim>\<open>garbage ZZZ 2024\<close>: the remaining string
  \<^verbatim>\<open>garbage 2024\<close> does not match the pattern, and the exception raised is the
  resolver's, not that of \<^verbatim>\<open>strptime\<close>.
\<close>

theorem resolver_runs_before_the_pattern_counterexample:
  "strptime example_env (remaining (split_sp ''garbage ZZZ 2024'')) = Inl StrptimeError
   \<and> parse_switch_timestamp example_env ''garbage ZZZ 2024'' = Inl MinEmptySequence
   \<and> parse_switch_timestamp example_env ''garbage ZZZ 2024'' \<noteq> Inl StrptimeError"
  by code_simp

subsection \<open>Timestamps that parse\<close>

text \<open>
  Claim C5, as amended. When the second-to-last token resolves to a zone, the remaining
  string matches the pattern and gives the naive local instant \<open>local\<close>, the zone has
  a UTC offset at \<open>local\<close>, and \<open>local\<close> minus that offset lies between
  \<^verbatim>\<open>datetime.min\<close> and \<^verbatim>\<open>datetime.max\<close>, then \<^verbatim>\<open>parse_switch_timestamp\<close> returns
  \<open>local\<close> minus the offset the zone has at \<open>local\<close>, tagged as UTC. In the
  example a summer date in \<^verbatim>\<open>CET\<close> is moved by two hours, where a winter date has
  an offset of one hour.
\<close>

theorem parse_subtracts_the_zone_offset:
  assumes "tz_token (split_sp ts) = Inr tz"
    and "get_timezone_name env tz = Inr (PytzZone z)"
    and "strptime env (remaining (split_sp ts)) = Inr local"
    and "utcoffset env z local = Inr off"
    and "0 \<le> ticks local - off" and "ticks local - off \<le> MAXTICKS"
  shows "parse_switch_timestamp env ts = Inr \<lparr>ticks = ticks local - off, tzoffset = Some 0\<rparr>"
  using assms by (simp add: parse_switch_timestamp_def dt_sub_def)

theorem parse_subtracts_the_zone_offset_witness:
  "tz_token (split_sp ''Tue Jun 4 10:00:00 CEST 2024'') = Inr ''CEST''
   \<and> get_timezone_name example_env ''CEST'' = Inr (PytzZone ''CET'')
   \<and> strptime example_env (remaining (split_sp ''Tue Jun 4 10:00:00 CEST 2024''))
       = Inr \<lparr>ticks = 63853092000000000, tzoffset = None\<rparr>
   \<and> utcoffset example_env ''CET'' \<lparr>ticks = 63853092000000000, tzoffset = None\<rparr> = Inr (hours 2)
   \<and> utcoffset example_env ''CET'' \<lparr>ticks = 63840909600000000, tzoffset = None\<rparr> = Inr (hours 1)
   \<and> parse_switch_timestamp example_env ''Tue Jun 4 10:00:00 CEST 2024''
       = Inr \<lparr>ticks = 63853084800000000, tzoffset = Some 0\<rparr>"
proof -
  let ?local = "\<lparr>ticks = 63853092000000000, tzoffset = None\<rparr>"
  have h1: "tz_token (split_sp ''Tue Jun 4 10:00:00 CEST 2024'') = Inr ''CEST''" by code_simp
  have h2: "get_timezone_name example_env ''CEST'' = Inr (PytzZone ''CET'')" by code_simp
  have h3: "strptime example_env (remaining (split_sp ''Tue Jun 4 10:00:00 CEST 2024'')) = Inr ?local"
    by code_simp
  have h4: "utcoffset example_env ''CET'' ?local = Inr (hours 2)" by code_simp
  have w: "utcoffset example_env ''CET'' \<lparr>ticks = 63840909600000000, tzoffset = None\<rparr> = Inr (hours 1)"
    by code_simp
  have h5: "0 \<le> ticks ?local - hours 2" by (simp add: hours_def)
  have h6: "ticks ?local - hours 2 \<le> MAXTICKS" by (simp add: hours_def MAXTICKS_def)
  have "parse_switch_timestamp example_env ''Tue Jun 4 10:00:00 CEST 2024''
          = Inr \<lparr>ticks = ticks ?local - hours 2, tzoffset = Some 0\<rparr>"
    by (rule parse_subtracts_the_zone_offset [OF h1 h2 h3 h4 h5 h6])
  then have "parse_switch_timestamp example_env ''Tue Jun 4 10:00:00 CEST 2024''
          = Inr \<lparr>ticks = 63853084800000000, tzoffset = Some 0\<rparr>"
    by (simp add: hours_def)
  with h1 h2 h3 h4 w show ?thesis by simp
qed

text \<open>
  Claim C5 as stated fails at two timestamps whose token resolves and whose remaining
  string matches the pattern. \<^verbatim>\<open>Sun Oct 27 02:30:00 CET 2024\<close> is a local time that
  occurs twice, and the zone raises instead of giving an offset.
  \<^verbatim>\<open>Mon Jan 1 00:00:00 Etc/GMT-1 0001\<close> is one hour east of an instant before
  \<^verbatim>\<open>datetime.min\<close>, and the subtraction raises \<^verbatim>\<open>OverflowError\<close>.
\<close>

theorem parse_without_an_instant_counterexample:
  "tz_token (split_sp ''Sun Oct 27 02:30:00 CET 2024'') = Inr ''CET''
   \<and> get_timezone_name example_env ''CET'' = Inr (PytzZone ''CET'')
   \<and> strptime example_env (remaining (split_sp ''Sun Oct 27 02:30:00 CET 2024''))
       = Inr \<lparr>ticks = 63865593000000000, tzoffset = None\<rparr>
   \<and> parse_switch_timestamp example_env ''Sun Oct 27 02:30:00 CET 2024'' = Inl InvalidTimeError
   \<and> tz_token (split_sp ''Mon Jan 1 00:00:00 Etc/GMT-1 0001'') = Inr ''Etc/GMT-1''
   \<and> get_timezone_name example_env ''Etc/GMT-1'' = Inr (PytzZone ''Etc/GMT-1'')
   \<and> strptime example_env (remaining (split_sp ''Mon Jan 1 00:00:00 Etc/GMT-1 0001''))
       = Inr \<lparr>ticks = 0, tzoffset = None\<rparr>
   \<and> utcoffset example_env ''Etc/GMT-1'' \<lparr>ticks = 0, tzoffset = None\<rparr> = Inr 3600000000
   \<and> parse_switch_timestamp example_env ''Mon Jan 1 00:00:00 Etc/GMT-1 0001'' = Inl OverflowError"
  by code_simp

section \<open>Properties of \<^verbatim>\<open>get_statuspage_maintenance\<close>\<close>

text \<open>
  Every iteration calls \<^verbatim>\<open>get_page()\<close> without an argument, so it asks for page 1,
  whatever the variable \<^verbatim>\<open>page\<close> holds.
\<close>

lemma fetch_body_full:
  assumes "remote 1 = Inr pg" and "length pg = 100"
  shows "fetch_body remote st =
           Continue \<lparr>out = out st @ pg, page = page st + 1, requested = requested st @ [1]\<rparr>"
  using assms by (simp add: fetch_body_def get_page_def page_param_def)

lemma fetch_body_short:
  assumes "remote 1 = Inr pg" and "length pg \<noteq> 100"
  shows "fetch_body remote st =
           Break \<lparr>out = out st @ pg, page = page st, requested = requested st @ [1]\<rparr>"
  using assms by (simp add: fetch_body_def get_page_def page_param_def)

lemma fetch_body_raise:
  assumes "remote 1 = Inl e"
  shows "fetch_body remote st = Raise e"
  using assms by (simp add: fetch_body_def get_page_def page_param_def)

lemma fetch_loop_never_returns:
  assumes "remote 1 = Inr pg" and "length pg = 100"
  shows "fetch_loop remote st = None"
proof -
  have "remote 1 = Inr pg \<longrightarrow> length pg = 100 \<longrightarrow> False"
    if ret: "fetch_loop remote st = Some y" for y
  proof (rule fetch_loop.raw_induct
      [where P = "\<lambda>r s y. r 1 = Inr pg \<longrightarrow> length pg = 100 \<longrightarrow> False", OF _ ret])
    fix f :: "remote \<Rightarrow> fetch_state \<Rightarrow> (exn + fetch_state) option"
    fix r :: remote and s :: fetch_state and y :: "exn + fetch_state"
    assume ih: "\<And>s b y. f s b = Some y \<Longrightarrow> s 1 = Inr pg \<longrightarrow> length pg = 100 \<longrightarrow> False"
      and step: "(case fetch_body r s of
                    Continue st1 \<Rightarrow> f r st1
                  | Break st1 \<Rightarrow> Some (Inr st1)
                  | Raise e \<Rightarrow> Some (Inl e)) = Some y"
    show "r 1 = Inr pg \<longrightarrow> length pg = 100 \<longrightarrow> False"
    proof (intro impI)
      assume a: "r 1 = Inr pg" "length pg = 100"
      from step fetch_body_full [of r pg s, OF a]
      have "f r \<lparr>out = out s @ pg, page = page s + 1, requested = requested s @ [1]\<rparr> = Some y"
        by simp
      from ih [OF this] a show False by simp
    qed
  qed
  with assms show ?thesis by (cases "fetch_loop remote st") auto
qed

lemma fetch_iterate_full:
  assumes "remote 1 = Inr pg" and "length pg = 100"
  shows "fetch_iterate remote n st =
           Continue \<lparr>out = out st @ concat (replicate n pg), page = page st + int n,
                     requested = requested st @ replicate n 1\<rparr>"
proof (induction n arbitrary: st)
  case 0
  show ?case by simp
next
  case (Suc n)
  show ?case
    by (simp add: fetch_body_full [of remote pg, OF assms] Suc.IH replicate_app_Cons_same)
qed

text \<open>
  What the function returns depends on the first page alone: its exception, its
  incidents when it is not full, and nothing at all when it holds 100 incidents.
\<close>

lemma get_statuspage_maintenance_eq:
  "get_statuspage_maintenance remote =
     (case remote 1 of
        Inl e \<Rightarrow> Some (Inl e)
      | Inr pg \<Rightarrow>
          if length pg = 100 then None
          else Some (filter_key ''impact'' (JStr ''maintenance'') pg))"
proof (cases "remote 1")
  case (Inl e)
  then show ?thesis
    by (simp add: get_statuspage_maintenance_def fetch_loop.simps [of remote] fetch_body_raise)
next
  case (Inr pg)
  show ?thesis
  proof (cases "length pg = 100")
    case True
    with Inr show ?thesis
      by (simp add: get_statuspage_maintenance_def fetch_loop_never_returns)
  next
    case False
    with Inr show ?thesis
      by (simp add: get_statuspage_maintenance_def fetch_loop.simps [of remote]
            fetch_body_short fetch_init_def)
  qed
qed

text \<open>
  Claim C3, at a service with 101 incidents: 100 on the first page and one on the
  second, which is a page with fewer than 100 entries. The function never returns. After
  three iterations the loop has asked for page 1 three times, it holds 300 entries, the
  variable \<^verbatim>\<open>page\<close> is 4, and the loop goes on.
\<close>

theorem every_request_asks_for_the_first_page:
  "full_first_page 2 = Inr [incident ''b'' ''scheduled'' ''maintenance'' ''2024-06-04T12:00:00.000Z'']
   \<and> get_statuspage_maintenance full_first_page = None
   \<and> fetch_iterate full_first_page 3 fetch_init =
       Continue \<lparr>out = replicate 300 (incident ''a'' ''scheduled'' ''maintenance'' ''2024-06-04T08:00:00.000Z''),
                 page = 4, requested = [1, 1, 1]\<rparr>"
proof -
  let ?pg = "replicate 100 (incident ''a'' ''scheduled'' ''maintenance'' ''2024-06-04T08:00:00.000Z'')"
  have p1: "full_first_page 1 = Inr ?pg" by (simp add: full_first_page_def)
  have p2: "full_first_page 2 = Inr [incident ''b'' ''scheduled'' ''maintenance'' ''2024-06-04T12:00:00.000Z'']"
    by (simp add: full_first_page_def)
  have len: "length ?pg = 100" by simp
  have a: "get_statuspage_maintenance full_first_page = None"
    using p1 len by (simp add: get_statuspage_maintenance_eq)
  have it: "fetch_iterate full_first_page 3 fetch_init =
      Continue \<lparr>out = out fetch_init @ concat (replicate 3 ?pg), page = page fetch_init + int 3,
                requested = requested fetch_init @ replicate 3 1\<rparr>"
    by (rule fetch_iterate_full [of full_first_page ?pg, OF p1 len])
  have c: "concat (replicate 3 ?pg) =
      replicate 300 (incident ''a'' ''scheduled'' ''maintenance'' ''2024-06-04T08:00:00.000Z'')"
    by (simp add: numeral_3_eq_3 replicate_add [symmetric])
  have r: "replicate 3 (1::int) = [1, 1, 1]" by (simp add: numeral_3_eq_3)
  have b: "fetch_iterate full_first_page 3 fetch_init =
       Continue \<lparr>out = replicate 300 (incident ''a'' ''scheduled'' ''maintenance'' ''2024-06-04T08:00:00.000Z''),
                 page = 4, requested = [1, 1, 1]\<rparr>"
    unfolding it c r by (simp add: fetch_init_def)
  from p2 a b show ?thesis by simp
qed

section \<open>Properties of \<^verbatim>\<open>main\<close>\<close>

subsection \<open>The two filters\<close>

lemma filter_key_total:
  assumes "\<forall>m \<in> set xs. map_of m k \<noteq> None"
  shows "filter_key k v xs = Inr (filter (\<lambda>m. map_of m k = Some v) xs)"
  using assms by (induction xs) (auto simp: getitem_def)

lemma filter_key_result:
  assumes "filter_key k v xs = Inr ys"
  shows "ys = filter (\<lambda>m. map_of m k = Some v) xs"
  using assms
  by (induction xs arbitrary: ys) (auto simp: getitem_def split: option.splits sum.splits)

lemma filter_key_drop:
  assumes "map_of m k = Some u" and "u \<noteq> v"
  shows "filter_key k v (xs @ m # ys) = filter_key k v (xs @ ys)"
  using assms by (induction xs) (auto simp: getitem_def split: option.splits sum.splits)

subsection \<open>The search for a matching incident\<close>

text \<open>
  When the inner loop ends without an exception, \<^verbatim>\<open>statuspage_m\<close> is the last
  incident of the list that starts at the window, or \<^verbatim>\<open>None\<close> when no incident
  does.
\<close>

lemma find_match_result:
  assumes "find_match env w sp acc = Inr r"
  shows "r = (case filter (starts_at env w) sp of [] \<Rightarrow> acc | m # ms \<Rightarrow> Some (last (m # ms)))"
  using assms
proof (induction sp arbitrary: acc)
  case Nil
  then show ?case by simp
next
  case (Cons m sp)
  from Cons.prems obtain s d where s: "map_of m ''scheduled_for'' = Some (JStr s)"
    and d: "fromisoformat env (replace_Z s) = Inr d"
    and rest: "find_match env w sp (if dt_eq d (from_time w) then Some m else acc) = Inr r"
    by (auto simp: getitem_def split: option.splits json.splits sum.splits)
  have st: "starts_at env w m = dt_eq d (from_time w)" by (simp add: starts_at_def s d)
  from Cons.IH [OF rest] show ?case
    by (cases "dt_eq d (from_time w)") (auto simp: st split: list.splits)
qed

lemma find_match_total:
  assumes "\<forall>m \<in> set sp. well_formed env m"
  shows "\<exists>r. find_match env w sp acc = Inr r"
  using assms
proof (induction sp arbitrary: acc)
  case Nil
  then show ?case by simp
next
  case (Cons m sp)
  from Cons.prems have "well_formed env m" by simp
  then obtain s d where "map_of m ''scheduled_for'' = Some (JStr s)"
    and "fromisoformat env (replace_Z s) = Inr d"
    by (auto simp: well_formed_def split: option.splits json.splits sum.splits)
  with Cons show ?case by (simp add: getitem_def)
qed

lemma last_filter_mem:
  assumes "filter P xs = m # ms"
  shows "last (m # ms) \<in> set xs" and "P (last (m # ms))"
proof -
  have "last (m # ms) \<in> set (filter P xs)" unfolding assms by (rule last_in_set) simp
  then show "last (m # ms) \<in> set xs" and "P (last (m # ms))" by simp_all
qed

lemma window_request_well_formed:
  assumes "\<forall>m \<in> set sp. well_formed env m"
  shows "window_request env cid sp w = Inr (spec_intent env cid sp w)"
proof -
  from find_match_total [OF assms] obtain r where r: "find_match env w sp None = Inr r" by blast
  note res = find_match_result [OF r]
  show ?thesis
  proof (cases "filter (starts_at env w) sp")
    case Nil
    with res r show ?thesis by (simp add: window_request_def spec_intent_def)
  next
    case (Cons m ms)
    let ?l = "last (m # ms)"
    from last_filter_mem(1) [OF Cons] assms have "well_formed env ?l" by blast
    then obtain i where i: "map_of ?l ''id'' = Some i" by (auto simp: well_formed_def)
    then have ne: "?l \<noteq> []" by auto
    from res Cons have "r = Some ?l" by simp
    with r i ne Cons show ?thesis
      by (simp add: window_request_def spec_intent_def getitem_def incident_id_def)
  qed
qed

subsection \<open>The requests of a run\<close>

lemma main_loop_all_sent:
  assumes "\<forall>r. http r = None" and "\<forall>w \<in> set ws. window_request env cid sp w = Inr (f w)"
  shows "main_loop env cid http sp ws = (map f ws, None)"
  using assms by (induction ws) auto

lemma main_loop_trace:
  assumes "main_loop env cid http sp ws = (trace, r)" and "req \<in> set trace"
  shows "\<exists>w \<in> set ws. window_request env cid sp w = Inr req"
  using assms
proof (induction ws arbitrary: trace r)
  case Nil
  then show ?case by simp
next
  case (Cons w ws)
  then show ?case
    by (fastforce split: sum.splits option.splits prod.splits)
qed

lemma main_loop_completed:
  assumes "main_loop env cid http sp ws = (trace, None)"
  shows "map (window_request env cid sp) ws = map Inr trace"
  using assms
proof (induction ws arbitrary: trace)
  case Nil
  then show ?case by simp
next
  case (Cons w ws)
  then show ?case
    by (fastforce split: sum.splits option.splits prod.splits)
qed

lemma is_scheduled_filter:
  "filter (\<lambda>m. map_of m ''status'' = Some (JStr ''scheduled'')) incs = filter is_scheduled incs"
  by (simp add: is_scheduled_def [abs_def])

lemma main_core_well_formed:
  assumes "\<forall>m \<in> set incs. well_formed env m" and "\<forall>r. http r = None"
  shows "main_core env cid http ws incs =
           (map (spec_intent env cid (filter is_scheduled incs)) (filter relevant ws), None)"
proof -
  from assms(1) have "\<forall>m \<in> set incs. map_of m ''status'' \<noteq> None"
    by (simp add: well_formed_def)
  then have fk: "filter_key ''status'' (JStr ''scheduled'') incs = Inr (filter is_scheduled incs)"
    by (simp add: filter_key_total is_scheduled_filter)
  from assms(1) have wf: "\<forall>m \<in> set (filter is_scheduled incs). well_formed env m" by simp
  have "main_loop env cid http (filter is_scheduled incs) (filter relevant ws)
          = (map (spec_intent env cid (filter is_scheduled incs)) (filter relevant ws), None)"
    using assms(2) by (rule main_loop_all_sent) (simp add: window_request_well_formed [OF wf])
  with fk show ?thesis by (simp add: main_core_def)
qed


lemma starts_at_nonempty: "starts_at env w m \<Longrightarrow> m \<noteq> []"
  by (auto simp: starts_at_def)

lemma window_request_Patch:
  assumes "window_request env cid sp w = Inr (Patch i d)"
  shows "d = incident_data env cid w
         \<and> (\<exists>m \<in> set sp. starts_at env w m \<and> map_of m ''id'' = Some i)"
proof -
  from assms obtain r where r: "find_match env w sp None = Inr r"
    by (auto simp: window_request_def split: sum.splits)
  note res = find_match_result [OF r]
  show ?thesis
  proof (cases "filter (starts_at env w) sp")
    case Nil
    with res r assms show ?thesis by (simp add: window_request_def)
  next
    case (Cons m ms)
    let ?l = "last (m # ms)"
    from res Cons have "r = Some ?l" by simp
    with r assms have "d = incident_data env cid w" and "map_of ?l ''id'' = Some i"
      by (auto simp: window_request_def getitem_def Let_def split: if_splits option.splits)
    with last_filter_mem [OF Cons] show ?thesis by blast
  qed
qed

lemma window_request_Post:
  assumes "window_request env cid sp w = Inr (Post d)"
  shows "d = incident_data env cid w \<and> filter (starts_at env w) sp = []"
proof -
  from assms obtain r where r: "find_match env w sp None = Inr r"
    by (auto simp: window_request_def split: sum.splits)
  note res = find_match_result [OF r]
  show ?thesis
  proof (cases "filter (starts_at env w) sp")
    case Nil
    with res r assms show ?thesis by (simp add: window_request_def)
  next
    case (Cons m ms)
    let ?l = "last (m # ms)"
    from last_filter_mem(2) [OF Cons] have "?l \<noteq> []" by (rule starts_at_nonempty)
    moreover from res Cons have "r = Some ?l" by simp
    ultimately have False using r assms
      by (auto simp: window_request_def getitem_def Let_def split: if_splits option.splits)
    then show ?thesis ..
  qed
qed

text \<open>
  Claim C1. When every incident is well formed and every write succeeds, the run sends
  exactly one request for each window that passes the filter, in the order of the
  windows: a \<^verbatim>\<open>PATCH\<close> on the id of the last scheduled incident whose start, as an
  instant, equals the window's \<^verbatim>\<open>from_time\<close>, and a \<^verbatim>\<open>POST\<close> when there is no
  such incident. The payload carries the window's \<^verbatim>\<open>from_time\<close> and \<^verbatim>\<open>to_time\<close>
  in ISO format, the fixed name, body and impact, and the eight flags, all true.
\<close>

theorem one_write_per_relevant_window:
  assumes "\<forall>m \<in> set incs. well_formed env m" and "\<forall>r. http r = None"
  shows "main_core env cid http ws incs =
           (map (spec_intent env cid (filter is_scheduled incs)) (filter relevant ws), None)
         \<and> (\<forall>w. map_of (incident_data env cid w) ''scheduled_for''
                   = Some (JStr (isoformat env (from_time w)))
               \<and> map_of (incident_data env cid w) ''scheduled_until''
                   = Some (JStr (isoformat env (to_time w)))
               \<and> map_of (incident_data env cid w) ''name'' = Some (JStr ''SWITCH Maintenance'')
               \<and> map_of (incident_data env cid w) ''body''
                   = Some (JStr (''The registry for .ch and .li domains will be undergoing maintenance. '' @
                        ''Expect an inability to manage, register, or transfer domains with these extensions.''))
               \<and> map_of (incident_data env cid w) ''impact_override'' = Some (JStr ''maintenance'')
               \<and> (\<forall>k \<in> set [''scheduled_auto_in_progress'', ''scheduled_auto_completed'',
                             ''auto_transition_to_maintenance_state'',
                             ''auto_transition_to_operational_state'',
                             ''auto_tweet_on_creation'', ''auto_tweet_one_hour_before'',
                             ''auto_tweet_at_beginning'', ''auto_tweet_on_completion''].
                     map_of (incident_data env cid w) k = Some (JBool True)))"
proof -
  have "main_core env cid http ws incs =
           (map (spec_intent env cid (filter is_scheduled incs)) (filter relevant ws), None)"
    using assms by (rule main_core_well_formed)
  moreover have "map_of (incident_data env cid w) ''scheduled_for''
                   = Some (JStr (isoformat env (from_time w)))" for w
    by (simp add: incident_data_def)
  moreover have "map_of (incident_data env cid w) ''scheduled_until''
                   = Some (JStr (isoformat env (to_time w)))" for w
    by (simp add: incident_data_def)
  moreover have "map_of (incident_data env cid w) ''name'' = Some (JStr ''SWITCH Maintenance'')" for w
    by (simp add: incident_data_def)
  moreover have "map_of (incident_data env cid w) ''body''
                   = Some (JStr (''The registry for .ch and .li domains will be undergoing maintenance. '' @
                        ''Expect an inability to manage, register, or transfer domains with these extensions.''))" for w
    by (simp add: incident_data_def)
  moreover have "map_of (incident_data env cid w) ''impact_override'' = Some (JStr ''maintenance'')" for w
    by (simp add: incident_data_def)
  moreover have "\<forall>k \<in> set [''scheduled_auto_in_progress'', ''scheduled_auto_completed'',
                             ''auto_transition_to_maintenance_state'',
                             ''auto_transition_to_operational_state'',
                             ''auto_tweet_on_creation'', ''auto_tweet_one_hour_before'',
                             ''auto_tweet_at_beginning'', ''auto_tweet_on_completion''].
                     map_of (incident_data env cid w) k = Some (JBool True)" for w
    by (simp add: incident_data_def)
  ultimately show ?thesis by blast
qed


theorem one_write_per_relevant_window_witness:
  "list_all (well_formed example_env) example_incidents
   \<and> main_core example_env ''c1'' (\<lambda>r. None) [window_B, window_A] example_incidents
       = ([Patch (JStr ''y'') (incident_data example_env ''c1'' window_A)], None)
   \<and> main_core example_env ''c1'' (\<lambda>r. None) [window_B, window_A] []
       = ([Post (incident_data example_env ''c1'' window_A)], None)
   \<and> map_of (incident_data example_env ''c1'' window_A) ''scheduled_for''
       = Some (JStr ''2024-06-04T08:00:00+00:00'')"
proof -
  have wf: "\<forall>m \<in> set example_incidents. well_formed example_env m" by code_simp
  have ok: "\<forall>r. (\<lambda>r. None :: exn option) r = None" by simp
  have rel: "filter relevant [window_B, window_A] = [window_A]" by code_simp
  have upd: "spec_intent example_env ''c1'' (filter is_scheduled example_incidents) window_A
               = Patch (JStr ''y'') (incident_data example_env ''c1'' window_A)"
    by code_simp
  have cre: "spec_intent example_env ''c1'' (filter is_scheduled []) window_A
               = Post (incident_data example_env ''c1'' window_A)"
    by code_simp
  have iso: "isoformat example_env (from_time window_A) = ''2024-06-04T08:00:00+00:00''"
    by code_simp
  have wf0: "\<forall>m \<in> set ([] :: pydict list). well_formed example_env m" by simp
  from one_write_per_relevant_window [OF wf ok, of "''c1''" "[window_B, window_A]"]
  have a: "main_core example_env ''c1'' (\<lambda>r. None) [window_B, window_A] example_incidents
       = ([Patch (JStr ''y'') (incident_data example_env ''c1'' window_A)], None)"
    and c: "map_of (incident_data example_env ''c1'' window_A) ''scheduled_for''
       = Some (JStr ''2024-06-04T08:00:00+00:00'')"
    by (simp_all only: rel upd iso list.map)
  from one_write_per_relevant_window [OF wf0 ok, of "''c1''" "[window_B, window_A]"]
  have b: "main_core example_env ''c1'' (\<lambda>r. None) [window_B, window_A] []
       = ([Post (incident_data example_env ''c1'' window_A)], None)"
    by (simp only: rel cre list.map)
  from wf a b c show ?thesis by (simp add: list_all_iff)
qed


lemma main_core_trace:
  assumes "req \<in> set (fst (main_core env cid http ws incs))"
  shows "\<exists>w \<in> set (filter relevant ws).
           window_request env cid (filter is_scheduled incs) w = Inr req"
proof (cases "filter_key ''status'' (JStr ''scheduled'') incs")
  case (Inl e)
  with assms show ?thesis by (simp add: main_core_def)
next
  case (Inr sp)
  then have sp: "sp = filter is_scheduled incs"
    using filter_key_result [OF Inr] by (simp add: is_scheduled_filter)
  obtain trace r where ml: "main_loop env cid http sp (filter relevant ws) = (trace, r)"
    by (cases "main_loop env cid http sp (filter relevant ws)") auto
  with Inr assms have "req \<in> set trace" by (simp add: main_core_def)
  from main_loop_trace [OF ml this] sp show ?thesis by simp
qed

lemma main_core_completed:
  assumes "main_core env cid http ws incs = (trace, None)"
  shows "map (window_request env cid (filter is_scheduled incs)) (filter relevant ws)
           = map Inr trace"
proof (cases "filter_key ''status'' (JStr ''scheduled'') incs")
  case (Inl e)
  with assms show ?thesis by (simp add: main_core_def)
next
  case (Inr sp)
  then have sp: "sp = filter is_scheduled incs"
    using filter_key_result [OF Inr] by (simp add: is_scheduled_filter)
  from Inr assms have "main_loop env cid http sp (filter relevant ws) = (trace, None)"
    by (simp add: main_core_def)
  from main_loop_completed [OF this] sp show ?thesis by simp
qed

text \<open>
  Claim C7. A window whose environment is not \<^verbatim>\<open>production\<close>, or whose systems do not
  contain \<^verbatim>\<open>epp.nic.ch\<close>, changes nothing in a run: the run is the run without the
  window, and a run on that window alone sends no request. An incident whose status is not
  \<^verbatim>\<open>scheduled\<close> changes nothing either, and every \<^verbatim>\<open>PATCH\<close> is on the id of an
  incident whose status is \<^verbatim>\<open>scheduled\<close>.
\<close>

theorem filtered_out_records_are_ignored:
  "(environment w \<noteq> ''production'' \<or> ''epp.nic.ch'' \<notin> set (systems w)
      \<longrightarrow> main_core env cid http (ws1 @ w # ws2) incs = main_core env cid http (ws1 @ ws2) incs
          \<and> fst (main_core env cid http [w] incs) = [])
   \<and> (map_of m ''status'' = Some v \<and> v \<noteq> JStr ''scheduled''
      \<longrightarrow> main_core env cid http ws (is1 @ m # is2) = main_core env cid http ws (is1 @ is2))
   \<and> (\<forall>i d. Patch i d \<in> set (fst (main_core env cid http ws incs))
      \<longrightarrow> (\<exists>x \<in> set incs. map_of x ''status'' = Some (JStr ''scheduled'')
                            \<and> map_of x ''id'' = Some i))"
proof -
  have a: "main_core env cid http (ws1 @ w # ws2) incs = main_core env cid http (ws1 @ ws2) incs
          \<and> fst (main_core env cid http [w] incs) = []"
    if "environment w \<noteq> ''production'' \<or> ''epp.nic.ch'' \<notin> set (systems w)"
  proof -
    from that have "\<not> relevant w" by (auto simp: relevant_def)
    then show ?thesis by (simp add: main_core_def split: sum.splits)
  qed
  have b: "main_core env cid http ws (is1 @ m # is2) = main_core env cid http ws (is1 @ is2)"
    if "map_of m ''status'' = Some v \<and> v \<noteq> JStr ''scheduled''"
    using that by (simp add: main_core_def filter_key_drop [of m "''status''" v])
  have c: "\<exists>x \<in> set incs. map_of x ''status'' = Some (JStr ''scheduled'') \<and> map_of x ''id'' = Some i"
    if "Patch i d \<in> set (fst (main_core env cid http ws incs))" for i d
  proof -
    from main_core_trace [OF that] obtain u
      where "window_request env cid (filter is_scheduled incs) u = Inr (Patch i d)" by blast
    from window_request_Patch [OF this] show ?thesis by (auto simp: is_scheduled_def)
  qed
  from a b c show ?thesis by blast
qed

theorem filtered_out_records_are_ignored_witness:
  "environment window_B \<noteq> ''production''
   \<and> fst (main_core example_env ''c1'' (\<lambda>r. None) [window_B] example_incidents) = []
   \<and> main_core example_env ''c1'' (\<lambda>r. None) [window_A, window_B] example_incidents
       = main_core example_env ''c1'' (\<lambda>r. None) [window_A] example_incidents
   \<and> main_core example_env ''c1'' (\<lambda>r. None) [window_A]
         [incident ''u'' ''in_progress'' ''maintenance'' ''2024-06-04T08:00:00.000Z'']
       = ([Post (incident_data example_env ''c1'' window_A)], None)"
proof -
  let ?u = "incident ''u'' ''in_progress'' ''maintenance'' ''2024-06-04T08:00:00.000Z''"
  have h1: "environment window_B \<noteq> ''production''" by code_simp
  have h2: "map_of ?u ''status'' = Some (JStr ''in_progress'') \<and> JStr ''in_progress'' \<noteq> JStr ''scheduled''"
    by code_simp
  have e: "main_core example_env ''c1'' (\<lambda>r. None) [window_A] []
       = ([Post (incident_data example_env ''c1'' window_A)], None)" by code_simp
  note t = filtered_out_records_are_ignored
    [of window_B example_env "''c1''" "\<lambda>r. None" "[window_A]" "[]" example_incidents
        ?u "JStr ''in_progress''" "[window_A]" "[]" "[]"]
  from t h1 have a: "fst (main_core example_env ''c1'' (\<lambda>r. None) [window_B] example_incidents) = []"
    and b: "main_core example_env ''c1'' (\<lambda>r. None) [window_A, window_B] example_incidents
       = main_core example_env ''c1'' (\<lambda>r. None) [window_A] example_incidents"
    by simp_all
  from t h2 have "main_core example_env ''c1'' (\<lambda>r. None) [window_A] [?u]
       = main_core example_env ''c1'' (\<lambda>r. None) [window_A] []"
    by simp
  with e h1 a b show ?thesis by simp
qed

subsection \<open>A second run\<close>

lemma map_Inr_mem:
  assumes "map f xs = map Inr ys" and "x \<in> set xs"
  shows "\<exists>y \<in> set ys. f x = Inr y"
  using assms by (induction xs arbitrary: ys) auto

text \<open>
  Claim C8. A first run on the windows \<open>ws\<close> and the incidents \<open>incs1\<close> ends
  without an exception. The second run sees the same windows and the incidents
  \<open>incs2\<close>, in which every scheduled incident of \<open>incs1\<close> is still a scheduled
  incident with the same start, and in which every \<^verbatim>\<open>POST\<close> of the first run has
  become a scheduled incident that starts at the window of the \<^verbatim>\<open>POST\<close>. Then
  every request of the second run is a \<^verbatim>\<open>PATCH\<close>, and a second run that ends without
  an exception sends one for each window that passes the filter.
\<close>

theorem second_run_creates_nothing:
  assumes run1: "main_core env cid http1 ws incs1 = (trace1, None)"
    and old: "\<forall>m \<in> set incs1. is_scheduled m
                \<longrightarrow> (\<exists>k \<in> set incs2. is_scheduled k
                       \<and> (\<forall>w \<in> set ws. starts_at env w m \<longrightarrow> starts_at env w k))"
    and new: "\<forall>w \<in> set ws. Post (incident_data env cid w) \<in> set trace1
                \<longrightarrow> (\<exists>m \<in> set incs2. is_scheduled m \<and> starts_at env w m)"
  shows "(\<forall>req \<in> set (fst (main_core env cid http2 ws incs2)). \<exists>i d. req = Patch i d)
         \<and> (snd (main_core env cid http2 ws incs2) = None
              \<longrightarrow> length (fst (main_core env cid http2 ws incs2)) = length (filter relevant ws))"
proof -
  let ?sp1 = "filter is_scheduled incs1" and ?sp2 = "filter is_scheduled incs2"
  note done1 = main_core_completed [OF run1]
  have matched: "filter (starts_at env w) ?sp2 \<noteq> []" if w: "w \<in> set (filter relevant ws)" for w
  proof -
    from map_Inr_mem [OF done1 w] obtain req where mem: "req \<in> set trace1"
      and req: "window_request env cid ?sp1 w = Inr req" by blast
    have "\<exists>m \<in> set incs2. is_scheduled m \<and> starts_at env w m"
    proof (cases req)
      case (Patch i d)
      with req window_request_Patch [of env cid ?sp1 w i d]
      obtain m where m: "m \<in> set incs1" "is_scheduled m" "starts_at env w m" by auto
      from w have "w \<in> set ws" by simp
      with old m show ?thesis by blast
    next
      case (Post d)
      with req window_request_Post [of env cid ?sp1 w d]
      have "d = incident_data env cid w" by simp
      with Post mem have "Post (incident_data env cid w) \<in> set trace1" by simp
      moreover from w have "w \<in> set ws" by simp
      ultimately show ?thesis using new by blast
    qed
    then show ?thesis by (auto simp: filter_empty_conv)
  qed
  have a: "\<exists>i d. req = Patch i d" if "req \<in> set (fst (main_core env cid http2 ws incs2))" for req
  proof -
    from main_core_trace [OF that] obtain w where w: "w \<in> set (filter relevant ws)"
      and req: "window_request env cid ?sp2 w = Inr req" by blast
    show ?thesis
    proof (cases req)
      case (Patch i d)
      then show ?thesis by blast
    next
      case (Post d)
      with req window_request_Post [of env cid ?sp2 w d] matched [OF w] show ?thesis by simp
    qed
  qed
  have b: "length (fst (main_core env cid http2 ws incs2)) = length (filter relevant ws)"
    if "snd (main_core env cid http2 ws incs2) = None"
  proof -
    from that have "main_core env cid http2 ws incs2 = (fst (main_core env cid http2 ws incs2), None)"
      by (metis prod.collapse)
    from main_core_completed [OF this] show ?thesis by (metis length_map)
  qed
  from a b show ?thesis by blast
qed


theorem second_run_creates_nothing_witness:
  "main_core example_env ''c1'' (\<lambda>r. None) [window_A, window_C]
       [incident ''z'' ''scheduled'' ''maintenance'' ''2024-06-04T12:00:00.000Z'']
     = ([Post (incident_data example_env ''c1'' window_A),
         Patch (JStr ''z'') (incident_data example_env ''c1'' window_C)], None)
   \<and> map_of (incident_data example_env ''c1'' window_A) ''scheduled_for''
       = Some (JStr ''2024-06-04T08:00:00+00:00'')
   \<and> Post (incident_data example_env ''c1'' window_A)
       \<notin> set (fst (main_core example_env ''c1'' (\<lambda>r. None) [window_A, window_C]
                     [incident ''z'' ''scheduled'' ''maintenance'' ''2024-06-04T12:00:00.000Z'',
                      incident ''n'' ''scheduled'' ''maintenance'' ''2024-06-04T08:00:00+00:00'']))
   \<and> length (fst (main_core example_env ''c1'' (\<lambda>r. None) [window_A, window_C]
                     [incident ''z'' ''scheduled'' ''maintenance'' ''2024-06-04T12:00:00.000Z'',
                      incident ''n'' ''scheduled'' ''maintenance'' ''2024-06-04T08:00:00+00:00''])) = 2"
proof -
  let ?z = "incident ''z'' ''scheduled'' ''maintenance'' ''2024-06-04T12:00:00.000Z''"
  let ?n = "incident ''n'' ''scheduled'' ''maintenance'' ''2024-06-04T08:00:00+00:00''"
  let ?trace1 = "[Post (incident_data example_env ''c1'' window_A),
                  Patch (JStr ''z'') (incident_data example_env ''c1'' window_C)]"
  let ?run2 = "main_core example_env ''c1'' (\<lambda>r. None) [window_A, window_C] [?z, ?n]"
  have run1: "main_core example_env ''c1'' (\<lambda>r. None) [window_A, window_C] [?z] = (?trace1, None)"
    by code_simp
  have old: "\<forall>m \<in> set [?z]. is_scheduled m
                \<longrightarrow> (\<exists>k \<in> set [?z, ?n]. is_scheduled k
                       \<and> (\<forall>w \<in> set [window_A, window_C].
                             starts_at example_env w m \<longrightarrow> starts_at example_env w k))"
    by simp
  have new: "\<forall>w \<in> set [window_A, window_C]. Post (incident_data example_env ''c1'' w) \<in> set ?trace1
                \<longrightarrow> (\<exists>m \<in> set [?z, ?n]. is_scheduled m \<and> starts_at example_env w m)"
    by code_simp
  have iso: "map_of (incident_data example_env ''c1'' window_A) ''scheduled_for''
       = Some (JStr ''2024-06-04T08:00:00+00:00'')" by code_simp
  have fin: "snd ?run2 = None" by code_simp
  have rel: "length (filter relevant [window_A, window_C]) = 2" by code_simp
  note t = second_run_creates_nothing [OF run1 old new, of "\<lambda>r. None"]
  from t have "\<forall>req \<in> set (fst ?run2). \<exists>i d. req = Patch i d" by blast
  then have a: "Post (incident_data example_env ''c1'' window_A) \<notin> set (fst ?run2)" by blast
  from t fin rel have b: "length (fst ?run2) = 2" by simp
  from run1 iso a b show ?thesis by simp
qed

subsection \<open>Incidents with another impact\<close>

lemma fetched_incidents_have_maintenance_impact:
  assumes "get_statuspage_maintenance remote = Some (Inr sp)"
  shows "\<forall>m \<in> set sp. has_maintenance_impact m"
proof -
  from assms obtain pg where "filter_key ''impact'' (JStr ''maintenance'') pg = Inr sp"
    by (auto simp: get_statuspage_maintenance_eq split: sum.splits if_splits)
  from filter_key_result [OF this] show ?thesis by (simp add: has_maintenance_impact_def)
qed

text \<open>
  Claim C10. When the fetch returns, that is, when the first page is not full, it
  returns the incidents of that page whose impact is \<^verbatim>\<open>maintenance\<close>, and the run
  reconciles the windows against these alone. A window at which only incidents with
  another impact start gets a \<^verbatim>\<open>POST\<close>, also when such an incident is scheduled and
  starts exactly at the window; and every \<^verbatim>\<open>PATCH\<close> is on the id of a scheduled
  incident with impact \<^verbatim>\<open>maintenance\<close> that starts at the window.
\<close>

theorem other_impacts_are_never_matched:
  assumes "remote 1 = Inr pg" and "length pg \<noteq> 100"
    and "\<forall>m \<in> set pg. map_of m ''impact'' \<noteq> None \<and> well_formed env m"
    and "\<forall>r. http r = None"
  shows "get_statuspage_maintenance remote = Some (Inr (filter has_maintenance_impact pg))
         \<and> main env cid remote http ws =
             Some (map (spec_intent env cid (filter is_scheduled (filter has_maintenance_impact pg)))
                     (filter relevant ws), None)
         \<and> (\<forall>w. (\<forall>m \<in> set pg. is_scheduled m \<and> starts_at env w m \<longrightarrow> \<not> has_maintenance_impact m)
               \<longrightarrow> spec_intent env cid (filter is_scheduled (filter has_maintenance_impact pg)) w
                     = Post (incident_data env cid w))
         \<and> (\<forall>w i d. spec_intent env cid (filter is_scheduled (filter has_maintenance_impact pg)) w
                       = Patch i d
               \<longrightarrow> (\<exists>m \<in> set pg. has_maintenance_impact m \<and> is_scheduled m \<and> starts_at env w m
                                   \<and> map_of m ''id'' = Some i))"
proof -
  let ?sp = "filter has_maintenance_impact pg"
  let ?incs = "filter is_scheduled ?sp"
  from assms(3) have "\<forall>m \<in> set pg. map_of m ''impact'' \<noteq> None" by simp
  then have "filter_key ''impact'' (JStr ''maintenance'') pg = Inr ?sp"
    by (simp add: filter_key_total has_maintenance_impact_def [abs_def])
  with assms(1,2) have a: "get_statuspage_maintenance remote = Some (Inr ?sp)"
    by (simp add: get_statuspage_maintenance_eq)
  from assms(3) have wf: "\<forall>m \<in> set ?sp. well_formed env m" by simp
  have b: "main env cid remote http ws = Some (map (spec_intent env cid ?incs) (filter relevant ws), None)"
    using a main_core_well_formed [OF wf assms(4)] by (simp add: main_def)
  have c: "spec_intent env cid ?incs w = Post (incident_data env cid w)"
    if "\<forall>m \<in> set pg. is_scheduled m \<and> starts_at env w m \<longrightarrow> \<not> has_maintenance_impact m" for w
  proof -
    from that have "filter (starts_at env w) ?incs = []" by (auto simp: filter_empty_conv)
    then show ?thesis by (simp add: spec_intent_def)
  qed
  have d: "\<exists>m \<in> set pg. has_maintenance_impact m \<and> is_scheduled m \<and> starts_at env w m
                                   \<and> map_of m ''id'' = Some i"
    if "spec_intent env cid ?incs w = Patch i d" for w i d
  proof (cases "filter (starts_at env w) ?incs")
    case Nil
    with that show ?thesis by (simp add: spec_intent_def)
  next
    case (Cons m ms)
    let ?l = "last (m # ms)"
    from last_filter_mem [OF Cons] have l: "?l \<in> set ?incs" "starts_at env w ?l" by simp_all
    with assms(3) have "well_formed env ?l" by simp
    then obtain j where j: "map_of ?l ''id'' = Some j" by (auto simp: well_formed_def)
    from that Cons j have "i = j" by (simp add: spec_intent_def incident_id_def)
    with l j show ?thesis by auto
  qed
  from a b c d show ?thesis by blast
qed

theorem other_impacts_are_never_matched_witness:
  "get_statuspage_maintenance
       (\<lambda>p. Inr [incident ''x'' ''scheduled'' ''minor'' ''2024-06-04T08:00:00.000Z''])
     = Some (Inr [])
   \<and> starts_at example_env window_A (incident ''x'' ''scheduled'' ''minor'' ''2024-06-04T08:00:00.000Z'')
   \<and> main example_env ''c1''
       (\<lambda>p. Inr [incident ''x'' ''scheduled'' ''minor'' ''2024-06-04T08:00:00.000Z''])
       (\<lambda>r. None) [window_A]
     = Some ([Post (incident_data example_env ''c1'' window_A)], None)"
proof -
  let ?x = "incident ''x'' ''scheduled'' ''minor'' ''2024-06-04T08:00:00.000Z''"
  let ?remote = "(\<lambda>p. Inr [?x]) :: remote"
  have h1: "?remote 1 = Inr [?x]" by simp
  have h2: "length [?x] \<noteq> 100" by simp
  have h3: "\<forall>m \<in> set [?x]. map_of m ''impact'' \<noteq> None \<and> well_formed example_env m" by code_simp
  have h4: "\<forall>r. (\<lambda>r. None :: exn option) r = None" by simp
  have st: "starts_at example_env window_A ?x" by code_simp
  have imp: "\<forall>m \<in> set [?x]. is_scheduled m \<and> starts_at example_env window_A m
               \<longrightarrow> \<not> has_maintenance_impact m" by code_simp
  have fl: "filter has_maintenance_impact [?x] = []" by code_simp
  have rel: "filter relevant [window_A] = [window_A]" by code_simp
  note t = other_impacts_are_never_matched [of ?remote "[?x]" example_env "\<lambda>r. None" "''c1''" "[window_A]",
      OF h1 h2 h3 h4]
  from t have a: "get_statuspage_maintenance ?remote = Some (Inr [])" by (simp only: fl)
  from t imp have "spec_intent example_env ''c1'' (filter is_scheduled (filter has_maintenance_impact [?x])) window_A
                     = Post (incident_data example_env ''c1'' window_A)" by blast
  with t have b: "main example_env ''c1'' ?remote (\<lambda>r. None) [window_A]
     = Some ([Post (incident_data example_env ''c1'' window_A)], None)"
    by (simp only: rel list.map)
  from a st b show ?thesis by simp
qed

end
